theory Spec2Isabelle
  imports Complex_Main
begin

section \<open>Numbers and JavaScript primitives\<close>

text \<open>
  The source computes on IEEE doubles (and stores some buffers as 32-bit floats).
  The embedding reads every \<^verbatim>\<open>number\<close> as a real: rounding, overflow, infinities and
  NaN inputs are outside the model.  Where the source itself manufactures a NaN or
  an \<^verbatim>\<open>undefined\<close> from finite inputs (a read outside an array, \<^verbatim>\<open>0/0\<close>), the model makes
  that visible as \<open>None\<close> and follows JavaScript's rule that every comparison with it
  is false.
\<close>

definition js_round :: "real \<Rightarrow> int" where
  \<comment> \<open>\<^verbatim>\<open>Math.round\<close>: the nearest integer, halves towards plus infinity\<close>
  "js_round x = \<lfloor>x + 1 / 2\<rfloor>"

definition js_rem :: "int \<Rightarrow> int \<Rightarrow> int" where
  \<comment> \<open>\<^verbatim>\<open>a % b\<close> on integers: the remainder has the sign of the dividend\<close>
  "js_rem a b = sgn a * (\<bar>a\<bar> mod \<bar>b\<bar>)"

definition clamp01 :: "real \<Rightarrow> real" where
  "clamp01 v = max 0 (min 1 v)"

definition lerp :: "real \<Rightarrow> real \<Rightarrow> real \<Rightarrow> real" where
  "lerp a b t = a + (b - a) * t"

definition hypot :: "real \<Rightarrow> real \<Rightarrow> real" where
  \<comment> \<open>\<^verbatim>\<open>Math.hypot\<close>\<close>
  "hypot a b = sqrt (a * a + b * b)"

fun show_nat :: "nat \<Rightarrow> string" where
  "show_nat n =
     (if n < 10 then [char_of (48 + n)]
      else show_nat (n div 10) @ [char_of (48 + n mod 10)])"

declare show_nat.simps [simp del]

definition show_int :: "int \<Rightarrow> string" where
  \<comment> \<open>an integer inside a template literal\<close>
  "show_int i = (if i < 0 then CHR ''-'' # show_nat (nat (- i)) else show_nat (nat i))"


section \<open>src/audio/pitch.ts\<close>

record PitchResult =
  frequency :: "real option"
  midi :: "real option"
  note_name :: "string option"
  clarity :: real

definition NOTE_NAMES :: "string list" where
  "NOTE_NAMES =
     [''C'', ''C#'', ''D'', ''D#'', ''E'', ''F'', ''F#'', ''G'', ''G#'', ''A'', ''A#'', ''B'']"

definition freqToMidi :: "real \<Rightarrow> real" where
  "freqToMidi f = 69 + 12 * log 2 (f / 440)"

definition midiToFreq :: "real \<Rightarrow> real" where
  "midiToFreq m = 440 * 2 powr ((m - 69) / 12)"

definition midiToNoteName :: "real \<Rightarrow> string" where
  "midiToNoteName m =
     (let n = js_round m;
          name = NOTE_NAMES ! nat (js_rem (js_rem n 12 + 12) 12);
          octave = n div 12 - 1
      in name @ show_int octave)"

definition no_pitch :: PitchResult where
  \<comment> \<open>\<^verbatim>\<open>{ frequency: null, midi: null, note: null, clarity: 0 }\<close>\<close>
  "no_pitch = \<lparr>frequency = None, midi = None, note_name = None, clarity = 0\<rparr>"

subsection \<open>detectPitchACF\<close>

definition remove_dc_normalize :: "real list \<Rightarrow> real list" where
  \<comment> \<open>the three loops that fill \<^verbatim>\<open>buf\<close>\<close>
  "remove_dc_normalize time =
     (let mean = sum_list time / real (length time);
          vs = map (\<lambda>t. t - mean) time;
          maxAbs = foldl (\<lambda>m v. max m \<bar>v\<bar>) (1 / 10 ^ 9) vs
      in map (\<lambda>v. v / maxAbs) vs)"

definition acf_val :: "real list \<Rightarrow> int \<Rightarrow> real option" where
  \<comment> \<open>\<^verbatim>\<open>val\<close> of one lag.  A negative lag reads \<^verbatim>\<open>buf[i+lag]\<close> before the array and the
      lag \<^verbatim>\<open>buf.length\<close> divides 0 by 0: both give NaN, here \<open>None\<close>.\<close>
  "acf_val buf lag =
     (if lag < 0 \<or> lag = int (length buf) then None
      else Some (sum_list (map (\<lambda>i. buf ! i * buf ! (i + nat lag))
                             [0 ..< length buf - nat lag])
                 / (real (length buf) - real_of_int lag)))"

function acf_loop :: "real list \<Rightarrow> int \<Rightarrow> int \<Rightarrow> int \<times> real \<Rightarrow> int \<times> real" where
  "acf_loop buf lag maxLag (bestLag, bestVal) =
     (if lag \<le> maxLag then
        acf_loop buf (lag + 1) maxLag
          (case acf_val buf lag of
             Some val \<Rightarrow> if val > bestVal then (lag, val) else (bestLag, bestVal)
           | None \<Rightarrow> (bestLag, bestVal))
      else (bestLag, bestVal))"
  by pat_completeness auto
termination
  by (relation "measure (\<lambda>(buf, lag, maxLag, best). nat (maxLag + 1 - lag))") auto

declare acf_loop.simps [simp del]

definition detectPitchACF :: "real list \<Rightarrow> real \<Rightarrow> real \<Rightarrow> real \<Rightarrow> PitchResult" where
  "detectPitchACF time sampleRate minFreq maxFreq =
     (let buf = remove_dc_normalize time;
          minLag = \<lfloor>sampleRate / maxFreq\<rfloor>;
          maxLag = \<lfloor>sampleRate / minFreq\<rfloor>;
          (bestLag, bestVal) = acf_loop buf minLag maxLag (- 1, 0)
      in if bestLag \<le> 0 then no_pitch
         else
           (let freq = sampleRate / real_of_int bestLag;
                midi = freqToMidi freq;
                nm = midiToNoteName midi;
                clarity = min 1 (max 0 bestVal)
            in \<lparr>frequency = Some freq, midi = Some midi, note_name = Some nm,
                clarity = clarity\<rparr>))"

subsection \<open>simpleCepstrumPitch\<close>

definition cepstrum_of :: "real list \<Rightarrow> real list" where
  \<comment> \<open>the naive cosine transform shared by \<^verbatim>\<open>simpleCepstrumPitch\<close> and \<^verbatim>\<open>computeCepstrum\<close>\<close>
  "cepstrum_of logMag =
     (let N = length logMag
      in map (\<lambda>k. sum_list (map (\<lambda>n. logMag ! n * cos (2 * pi * real k * real n / real N))
                                 [0 ..< N]))
             [0 ..< N])"

definition cep_read :: "real list \<Rightarrow> int \<Rightarrow> real option" where
  \<comment> \<open>\<^verbatim>\<open>cep[k]\<close>: \<^verbatim>\<open>undefined\<close> outside the array\<close>
  "cep_read cep k = (if 0 \<le> k \<and> k < int (length cep) then Some (cep ! nat k) else None)"

function cep_loop :: "real list \<Rightarrow> int \<Rightarrow> int \<Rightarrow> int \<times> real \<Rightarrow> int \<times> real" where
  "cep_loop cep k qMax (bestK, bestV) =
     (if k \<le> qMax then
        cep_loop cep (k + 1) qMax
          (case cep_read cep k of
             Some c \<Rightarrow> if c > bestV then (k, c) else (bestK, bestV)
           | None \<Rightarrow> (bestK, bestV))
      else (bestK, bestV))"
  by pat_completeness auto
termination
  by (relation "measure (\<lambda>(cep, k, qMax, best). nat (qMax + 1 - k))") auto

declare cep_loop.simps [simp del]

definition simpleCepstrumPitch :: "real list \<Rightarrow> real \<Rightarrow> PitchResult" where
  "simpleCepstrumPitch mag sampleRate =
     (let N = length mag;
          logMag = map (\<lambda>m. ln (1 / 10 ^ 12 + max 0 m)) mag;
          cep = cepstrum_of logMag;
          qMin = \<lfloor>sampleRate / 500\<rfloor>;
          qMax = min (int N - 1) \<lfloor>sampleRate / 50\<rfloor>;
          (bestK, bestV) = cep_loop cep qMin qMax (- 1, - (10 ^ 9))
      in if bestK < 1 then no_pitch
         else
           (let freq = sampleRate / real_of_int bestK;
                midi = freqToMidi freq;
                nm = midiToNoteName midi;
                clarity = max 0 (min 1 ((bestV - 0) / (1000 + \<bar>bestV\<bar>)))
            in \<lparr>frequency = Some freq, midi = Some midi, note_name = Some nm,
                clarity = clarity\<rparr>))"

subsection \<open>predictNextMidi\<close>

definition slice_last :: "nat \<Rightarrow> 'a list \<Rightarrow> 'a list" where
  \<comment> \<open>\<^verbatim>\<open>xs.slice(-k)\<close>\<close>
  "slice_last k xs = drop (length xs - k) xs"

function push_intervals :: "real list \<Rightarrow> nat \<Rightarrow> real list \<Rightarrow> real list" where
  \<comment> \<open>\<^verbatim>\<open>for (let i=1;i<xs.length;i++) intervals.push(xs[i]-xs[i-1])\<close>, entered at \<open>i\<close>\<close>
  "push_intervals xs i intervals =
     (if i < length xs then push_intervals xs (i + 1) (intervals @ [xs ! i - xs ! (i - 1)])
      else intervals)"
  by pat_completeness auto
termination
  by (relation "measure (\<lambda>(xs, i, intervals). length xs - i)") auto

declare push_intervals.simps [simp del]

definition or_zero :: "real option \<Rightarrow> real" where
  \<comment> \<open>\<^verbatim>\<open>v || 0\<close>: 0 replaces \<^verbatim>\<open>undefined\<close> and the falsy number 0\<close>
  "or_zero v = (case v of None \<Rightarrow> 0 | Some x \<Rightarrow> if x = 0 then 0 else x)"

definition read_at :: "'a list \<Rightarrow> nat \<Rightarrow> 'a option" where
  \<comment> \<open>an array read: \<^verbatim>\<open>undefined\<close> past the end\<close>
  "read_at xs i = (if i < length xs then Some (xs ! i) else None)"

definition predictNextMidi :: "real list \<Rightarrow> real \<Rightarrow> real option" where
  "predictNextMidi history horizon =
     (let xs = slice_last 8 history
      in if length xs < 3 then None
         else
           (let intervals = sort (push_intervals xs 1 []);
                median = or_zero (read_at intervals (length intervals div 2));
                last = xs ! (length xs - 1)
            in Some (last + median * horizon)))"


section \<open>src/components/VisualizerPro.tsx: pitch tracking in \<^verbatim>\<open>loop\<close>\<close>

definition fuse :: "PitchResult \<Rightarrow> PitchResult \<Rightarrow> PitchResult" where
  \<comment> \<open>\<^verbatim>\<open>const best = r1.clarity >= r2.clarity ? r1 : r2\<close>\<close>
  "fuse r1 r2 = (if clarity r1 \<ge> clarity r2 then r1 else r2)"

definition fused_estimate :: "nat list option \<Rightarrow> real list option \<Rightarrow> real \<Rightarrow> PitchResult option" where
  \<comment> \<open>\<^verbatim>\<open>tdom\<close> is the byte waveform (or null), \<^verbatim>\<open>mag\<close> the magnitude array (or null);
      the result is \<open>None\<close> when the block \<^verbatim>\<open>if (tdom)\<close> is skipped\<close>
  "fused_estimate tdom mag sr =
     (case tdom of
        None \<Rightarrow> None
      | Some td \<Rightarrow>
          (let f32 = map (\<lambda>v. (real v - 128) / 128) td;
               r1 = detectPitchACF f32 sr 50 1000;
               r2 = (case mag of Some m \<Rightarrow> simpleCepstrumPitch m sr | None \<Rightarrow> no_pitch)
           in Some (fuse r1 r2)))"

record Tracker =
  midiHist :: "real list"
  predQueue :: "real list"
  errorMAE :: real
  errorCount :: nat
  errorMAEHz :: real
  errorCountHz :: nat
  errorMAECents :: real
  errorCountCents :: nat

definition tracker0 :: Tracker where
  \<comment> \<open>the refs as \<^verbatim>\<open>useRef\<close> creates them\<close>
  "tracker0 = \<lparr>midiHist = [], predQueue = [], errorMAE = 0, errorCount = 0,
                errorMAEHz = 0, errorCountHz = 0, errorMAECents = 0, errorCountCents = 0\<rparr>"

definition push_bounded :: "nat \<Rightarrow> 'a \<Rightarrow> 'a list \<Rightarrow> 'a list" where
  \<comment> \<open>\<^verbatim>\<open>h.push(v); if (h.length > cap) h.shift()\<close>\<close>
  "push_bounded cap v h = (let h1 = h @ [v] in if length h1 > cap then tl h1 else h1)"

definition score_prediction :: "real \<Rightarrow> real \<Rightarrow> real option \<Rightarrow> Tracker \<Rightarrow> Tracker" where
  \<comment> \<open>the body of \<^verbatim>\<open>if (predQueue.current.length)\<close> after the shift\<close>
  "score_prediction pred pitchMidi pitchHz s =
     (let errSemi = \<bar>pred - pitchMidi\<bar>;
          s1 = s\<lparr>errorMAE := (errorMAE s * real (errorCount s) + errSemi)
                                / (real (errorCount s) + 1),
                 errorCount := errorCount s + 1\<rparr>;
          predHz = midiToFreq pred
      in case pitchHz of
           None \<Rightarrow> s1
         | Some hz \<Rightarrow>
             if hz = 0 then s1
             else
               (let errHz = \<bar>predHz - hz\<bar>;
                    s2 = s1\<lparr>errorMAEHz := (errorMAEHz s1 * real (errorCountHz s1) + errHz)
                                            / (real (errorCountHz s1) + 1),
                            errorCountHz := errorCountHz s1 + 1\<rparr>;
                    errCents = \<bar>1200 * log 2 (hz / predHz)\<bar>
                in s2\<lparr>errorMAECents :=
                         (errorMAECents s2 * real (errorCountCents s2) + errCents)
                         / (real (errorCountCents s2) + 1),
                       errorCountCents := errorCountCents s2 + 1\<rparr>))"

definition accepted :: "PitchResult \<Rightarrow> bool" where
  \<comment> \<open>\<^verbatim>\<open>pitchMidi && clarity > 0.3\<close>: null and the number 0 are falsy\<close>
  "accepted best = (case midi best of None \<Rightarrow> False | Some pm \<Rightarrow> pm \<noteq> 0 \<and> clarity best > 0.3)"

definition accept_pitch :: "PitchResult \<Rightarrow> Tracker \<Rightarrow> Tracker" where
  "accept_pitch best s =
     (case midi best of
        None \<Rightarrow> s
      | Some pm \<Rightarrow>
          if pm \<noteq> 0 \<and> clarity best > 0.3 then
            (let s1 = s\<lparr>midiHist := push_bounded 128 pm (midiHist s)\<rparr>
             in case predQueue s1 of
                  [] \<Rightarrow> s1
                | pred # rest \<Rightarrow>
                    score_prediction pred pm (frequency best) (s1\<lparr>predQueue := rest\<rparr>))
          else s)"

definition track_frame :: "PitchResult option \<Rightarrow> Tracker \<Rightarrow> Tracker" where
  \<comment> \<open>one frame of the tracker, given the fused estimate of that frame\<close>
  "track_frame best s =
     (let s1 = (case best of None \<Rightarrow> s | Some b \<Rightarrow> accept_pitch b s)
      in case predictNextMidi (midiHist s1) 1 of
           None \<Rightarrow> s1
         | Some predicted \<Rightarrow> s1\<lparr>predQueue := predQueue s1 @ [predicted]\<rparr>)"

definition pitch_frame :: "nat list option \<Rightarrow> real list option \<Rightarrow> real \<Rightarrow> Tracker \<Rightarrow> Tracker" where
  "pitch_frame tdom mag sr s = track_frame (fused_estimate tdom mag sr) s"

definition track_frames :: "PitchResult option list \<Rightarrow> Tracker \<Rightarrow> Tracker" where
  \<comment> \<open>successive frames\<close>
  "track_frames bests s = foldl (\<lambda>t b. track_frame b t) s bests"


section \<open>src/components/VisualizerPro.tsx: bass energy, tempo and key\<close>

subsection \<open>Bass energy\<close>

definition bass_max_bin :: "nat \<Rightarrow> real \<Rightarrow> int option" where
  \<comment> \<open>\<^verbatim>\<open>maxBin\<close>.  JavaScript's division by zero is written out: with no bins
      \<^verbatim>\<open>hzPerBin\<close> is infinite (NaN when \<^verbatim>\<open>sr\<close> is 0 too), with \<^verbatim>\<open>sr = 0\<close> the quotient
      \<^verbatim>\<open>150 / hzPerBin\<close> is infinite.  \<open>None\<close> is NaN.\<close>
  "bass_max_bin bins sr =
     (if bins = 0 then (if sr = 0 then None else Some (- 1))
      else if sr = 0 then Some (int bins - 1)
      else
        (let hzPerBin = sr / 2 / real bins
         in Some (min (int bins - 1) \<lfloor>150 / hzPerBin\<rfloor>)))"

function bass_loop :: "real list \<Rightarrow> int \<Rightarrow> int \<Rightarrow> real \<Rightarrow> real" where
  "bass_loop mag i maxBin bassEnergy =
     (if i \<le> maxBin then
        bass_loop mag (i + 1) maxBin (bassEnergy + max 0 (mag ! nat i + 140))
      else bassEnergy)"
  by pat_completeness auto
termination
  by (relation "measure (\<lambda>(mag, i, maxBin, e). nat (maxBin + 1 - i))") auto

declare bass_loop.simps [simp del]

definition bass_energy :: "real list \<Rightarrow> real \<Rightarrow> real option" where
  \<comment> \<open>\<^verbatim>\<open>bassEnergy\<close> at the end of the block; \<open>None\<close> is NaN (\<^verbatim>\<open>0 / 0\<close>)\<close>
  "bass_energy mag sr =
     (case bass_max_bin (length mag) sr of
        None \<Rightarrow> None
      | Some maxBin \<Rightarrow>
          if maxBin + 1 = 0 then None
          else Some (bass_loop mag 0 maxBin 0 / real_of_int (maxBin + 1)))"

subsection \<open>estimateBPM\<close>





definition gt_ninf :: "real \<Rightarrow> real option \<Rightarrow> bool" where
  \<comment> \<open>\<^verbatim>\<open>v > best\<close> where \<open>None\<close> is \<^verbatim>\<open>-Infinity\<close>\<close>
  "gt_ninf v best = (case best of None \<Rightarrow> True | Some w \<Rightarrow> v > w)"




subsection \<open>estimateKeyFromFFT\<close>

definition KS_MAJOR :: "real list" where
  "KS_MAJOR = [6.35, 2.23, 3.48, 2.33, 4.38, 4.09, 2.52, 5.19, 2.39, 3.66, 2.29, 2.88]"

definition KS_MINOR :: "real list" where
  "KS_MINOR = [6.33, 2.68, 3.52, 5.38, 2.6, 3.53, 2.54, 4.75, 3.98, 2.69, 3.34, 3.17]"

definition key_names :: "string list" where
  "key_names =
     [''C'', ''C#'', ''D'', ''D#'', ''E'', ''F'', ''F#'', ''G'', ''G#'', ''A'', ''A#'', ''B'']"

function chroma_loop :: "real list \<Rightarrow> real \<Rightarrow> nat \<Rightarrow> real list \<Rightarrow> real list" where
  \<comment> \<open>\<^verbatim>\<open>for (let k = 1; k < N; k++)\<close>, entered at \<open>k\<close>\<close>
  "chroma_loop mag sampleRate k bins =
     (if k < length mag then
        chroma_loop mag sampleRate (k + 1)
          (let freq = real k * (sampleRate / 2) / real (length mag)
           in if freq < 50 \<or> freq > 5000 then bins
              else
                (let midi = 69 + 12 * log 2 (freq / 440);
                     cls = nat (js_rem (js_rem (js_round midi) 12 + 12) 12);
                     power = max 0 (mag ! k + 140)
                 in bins[cls := bins ! cls + power]))
      else bins)"
  by pat_completeness auto
termination
  by (relation "measure (\<lambda>(mag, sampleRate, k, bins). length mag - k)") auto

declare chroma_loop.simps [simp del]

definition rotation_score :: "real list \<Rightarrow> real list \<Rightarrow> nat \<Rightarrow> real" where
  \<comment> \<open>\<^verbatim>\<open>s\<close> of one shift: the dot product of the rotated histogram with the profile\<close>
  "rotation_score bins profile shift =
     sum_list (map (\<lambda>i. bins ! ((i + shift) mod 12) * profile ! i) [0 ..< 12])"

function score_loop :: "real list \<Rightarrow> real list \<Rightarrow> nat \<Rightarrow> nat \<times> real option \<Rightarrow> nat \<times> real option" where
  "score_loop bins profile shift (bestK, bestV) =
     (if shift < 12 then
        score_loop bins profile (shift + 1)
          (let s = rotation_score bins profile shift
           in if gt_ninf s bestV then (shift, Some s) else (bestK, bestV))
      else (bestK, bestV))"
  by pat_completeness auto
termination
  by (relation "measure (\<lambda>(bins, profile, shift, best). 12 - shift)") auto

declare score_loop.simps [simp del]

definition score :: "real list \<Rightarrow> real list \<Rightarrow> nat \<times> real option" where
  \<comment> \<open>\<^verbatim>\<open>{ key: bestK, val: bestV }\<close>\<close>
  "score bins profile = score_loop bins profile 0 (0, None)"

definition ge_ninf :: "real option \<Rightarrow> real option \<Rightarrow> bool" where
  \<comment> \<open>\<^verbatim>\<open>a >= b\<close> where \<open>None\<close> is \<^verbatim>\<open>-Infinity\<close>\<close>
  "ge_ninf a b =
     (case b of None \<Rightarrow> True | Some w \<Rightarrow> (case a of None \<Rightarrow> False | Some v \<Rightarrow> v \<ge> w))"

definition key_of_chroma :: "real list \<Rightarrow> string" where
  \<comment> \<open>everything of \<^verbatim>\<open>estimateKeyFromFFT\<close> after the histogram \<^verbatim>\<open>bins\<close> is filled\<close>
  "key_of_chroma bins =
     (let maj = score bins KS_MAJOR;
          minr = score bins KS_MINOR
      in if ge_ninf (snd maj) (snd minr) then key_names ! fst maj @ '' major''
         else key_names ! fst minr @ '' minor'')"

definition estimateKeyFromFFT :: "real list \<Rightarrow> real \<Rightarrow> string" where
  "estimateKeyFromFFT mag sampleRate =
     key_of_chroma (chroma_loop mag sampleRate 1 (replicate 12 0))"


section \<open>src/visuals/Boids.ts\<close>

text \<open>
  The fields \<^verbatim>\<open>x\<close>, \<^verbatim>\<open>y\<close>, \<^verbatim>\<open>vx\<close>, \<^verbatim>\<open>vy\<close> of a boid are \<open>pos_x\<close>, \<open>pos_y\<close>, \<open>vel_x\<close>,
  \<open>vel_y\<close> here, and \<^verbatim>\<open>range\<close> is \<open>nb_range\<close>: the short names would capture variables
  and a library constant.
\<close>

record Boid =
  pos_x :: real
  pos_y :: real
  vel_x :: real
  vel_y :: real
  hue :: real

record BoidParams =
  count :: real
  maxSpeed :: real
  align :: real
  coh :: real
  sep :: real
  nb_range :: real



record Neighbours =
  nb_n :: nat
  nb_ax :: real
  nb_ay :: real
  nb_sx :: real
  nb_sy :: real
  nb_cx :: real
  nb_cy :: real

definition no_neighbours :: Neighbours where
  "no_neighbours = \<lparr>nb_n = 0, nb_ax = 0, nb_ay = 0, nb_sx = 0, nb_sy = 0, nb_cx = 0, nb_cy = 0\<rparr>"

definition scan_body :: "Boid \<Rightarrow> real \<Rightarrow> Boid \<Rightarrow> Neighbours \<Rightarrow> Neighbours" where
  \<comment> \<open>the body of the inner loop for the other boid \<open>ob\<close>\<close>
  "scan_body b rng ob a =
     (let dx = pos_x ob - pos_x b;
          dy = pos_y ob - pos_y b;
          d2 = dx * dx + dy * dy
      in if d2 < rng * rng then
           (let inv = max (1 / 1000) d2
            in a\<lparr>nb_n := nb_n a + 1,
                 nb_ax := nb_ax a + vel_x ob, nb_ay := nb_ay a + vel_y ob,
                 nb_cx := nb_cx a + pos_x ob, nb_cy := nb_cy a + pos_y ob,
                 nb_sx := nb_sx a - dx / inv, nb_sy := nb_sy a - dy / inv\<rparr>)
         else a)"

definition scan_neighbours :: "Boid list \<Rightarrow> nat \<Rightarrow> real \<Rightarrow> Neighbours" where
  "scan_neighbours boids i rng =
     foldl (\<lambda>a j. if i = j then a else scan_body (boids ! i) rng (boids ! j) a)
       no_neighbours [0 ..< length boids]"

definition wrap :: "real \<Rightarrow> real \<Rightarrow> real" where
  \<comment> \<open>\<^verbatim>\<open>if (b.x<0) b.x+=W; if (b.x>W) b.x-=W;\<close>\<close>
  "wrap v W = (let v1 = (if v < 0 then v + W else v) in if v1 > W then v1 - W else v1)"

definition step_boid ::
  "Boid list \<Rightarrow> nat \<Rightarrow> real \<Rightarrow> real \<Rightarrow> BoidParams \<Rightarrow> (real \<times> real) option \<Rightarrow> real \<Rightarrow> Boid"
where
  \<comment> \<open>the body of the outer loop: the new value of \<^verbatim>\<open>boids[i]\<close>\<close>
  "step_boid boids i W H params target bassPush =
     (let b = boids ! i;
          a = scan_neighbours boids i (nb_range params);
          n = nb_n a;
          ax = (if n > 0 then (nb_ax a / real n - vel_x b) * align params else nb_ax a);
          ay = (if n > 0 then (nb_ay a / real n - vel_y b) * align params else nb_ay a);
          cx = (if n > 0 then (nb_cx a / real n - pos_x b) * coh params else nb_cx a);
          cy = (if n > 0 then (nb_cy a / real n - pos_y b) * coh params else nb_cy a);
          sx = (if n > 0 then nb_sx a * sep params else nb_sx a);
          sy = (if n > 0 then nb_sy a * sep params else nb_sy a);
          vx = (case target of None \<Rightarrow> 0 | Some (tx, ty) \<Rightarrow> (tx - pos_x b) * 0.0008);
          vy = (case target of None \<Rightarrow> 0 | Some (tx, ty) \<Rightarrow> (ty - pos_y b) * 0.0008);
          bvx1 = vel_x b + (ax + sx + cx + vx);
          bvy1 = vel_y b + (ay + sy + cy + vy);
          bvx2 = bvx1 + (pos_x b - W / 2) * 0.00002 * bassPush;
          bvy2 = bvy1 + (pos_y b - H / 2) * 0.00002 * bassPush;
          sp = hypot bvx2 bvy2;
          bvx3 = (if sp > maxSpeed params then bvx2 / sp * maxSpeed params else bvx2);
          bvy3 = (if sp > maxSpeed params then bvy2 / sp * maxSpeed params else bvy2)
      in b\<lparr>vel_x := bvx3, vel_y := bvy3,
           pos_x := wrap (pos_x b + bvx3) W, pos_y := wrap (pos_y b + bvy3) H\<rparr>)"

definition stepBoids ::
  "Boid list \<Rightarrow> real \<Rightarrow> real \<Rightarrow> BoidParams \<Rightarrow> (real \<times> real) option \<Rightarrow> real \<Rightarrow> Boid list"
where
  \<comment> \<open>the array is updated in place, boid by boid: boid \<open>i\<close> sees the new values of the
      boids before it\<close>
  "stepBoids boids W H params target bassPush =
     foldl (\<lambda>bs i. bs[i := step_boid bs i W H params target bassPush])
       boids [0 ..< length boids]"



section \<open>src/components/VisualizerPro.tsx: the swarms of \<^verbatim>\<open>drawSwarms\<close>\<close>

record Swarm =
  boids :: "Boid list"
  hueBase :: real
  life :: real
  alive :: bool
  targetPhase :: real

definition boidParams :: BoidParams where
  "boidParams = \<lparr>count = 240, maxSpeed = 5.6, align = 0.19, coh = 0.15, sep = 0.02,
                  nb_range = 160\<rparr>"

definition js_fmod :: "real \<Rightarrow> real \<Rightarrow> real" where
  \<comment> \<open>\<^verbatim>\<open>a % b\<close> on numbers: the quotient is truncated towards zero\<close>
  "js_fmod a b = a - b * real_of_int (if a / b < 0 then \<lceil>a / b\<rceil> else \<lfloor>a / b\<rfloor>)"

text \<open>
  What a frame takes from outside the swarm list: the canvas size, the results of
  \<^verbatim>\<open>Math.random()\<close> (each in \<open>[0, 1)\<close>), and the values derived from the clock and the
  audio features (clap flag, hue drift rate, the target of each swarm, the bass drive).
\<close>

record Spawn =
  sp_boids :: "Boid list"     \<comment> \<open>the result of \<^verbatim>\<open>makeBoids\<close>\<close>
  sp_hue :: real              \<comment> \<open>\<^verbatim>\<open>Math.random() * 360\<close>\<close>
  sp_phase :: real            \<comment> \<open>\<^verbatim>\<open>Math.random() * Math.PI * 2\<close>\<close>

record FrameEnv =
  env_W :: real
  env_H :: real
  isClap :: bool
  clap_spawn :: Spawn
  rnd_spawn :: real
  base_spawn :: Spawn
  rnd_despawn :: real
  rnd_idx :: real
  hueDriftRate :: real
  target_of :: "nat \<Rightarrow> real \<times> real"
  drive :: real

definition new_swarm :: "Spawn \<Rightarrow> Swarm" where
  \<comment> \<open>the object literal of a spawn, and the \<^verbatim>\<open>forEach\<close> that colours its boids\<close>
  "new_swarm sp =
     \<lparr>boids = map (\<lambda>(i, b). b\<lparr>hue := sp_hue sp + real (i mod 32) * 1.7\<rparr>)
                  (zip [0 ..< length (sp_boids sp)] (sp_boids sp)),
      hueBase = sp_hue sp, life = 0, alive = True, targetPhase = sp_phase sp\<rparr>"

definition update_swarm :: "FrameEnv \<Rightarrow> nat \<Rightarrow> Swarm \<Rightarrow> Swarm" where
  \<comment> \<open>the body of \<^verbatim>\<open>for (let i = 0; i < swarmsRef.current.length; i++)\<close>, as far as it
      changes the swarm\<close>
  "update_swarm e i s =
     (let hb = js_fmod (hueBase s + hueDriftRate e * (1 / 60)) 360;
          lf = clamp01 (lerp (life s) (if alive s then 1 else 0) 0.02);
          bs = stepBoids (boids s) (env_W e) (env_H e) boidParams (Some (target_of e i)) (drive e);
          painted = map (\<lambda>(bi, b). b\<lparr>hue := js_fmod (hb + real bi * 1.2) 360\<rparr>)
                      (zip [0 ..< length bs] bs)
      in s\<lparr>hueBase := hb, life := lf, boids := painted\<rparr>)"

definition swarm_frame :: "FrameEnv \<Rightarrow> Swarm list \<Rightarrow> Swarm list" where
  \<comment> \<open>\<^verbatim>\<open>swarmsRef.current\<close> after one call of \<^verbatim>\<open>drawSwarms\<close> (the later of the two
      versions of the component; the earlier one has no clap branch and other thresholds).
      \<^verbatim>\<open>Math.random()\<close> is below 1, so the index of the despawn is inside the array.\<close>
  "swarm_frame e swarms =
     (let s1 = (if isClap e then
                  map (\<lambda>s. s\<lparr>hueBase := js_fmod (hueBase s + 80) 360\<rparr>)
                    (if length swarms < 6 then swarms @ [new_swarm (clap_spawn e)] else swarms)
                else swarms);
          s2 = (if length s1 < 2 \<or> (length s1 < 5 \<and> rnd_spawn e < 0.006)
                then s1 @ [new_swarm (base_spawn e)] else s1);
          s3 = (if length s2 > 2 \<and> rnd_despawn e < 0.003 then
                  (let idx = nat \<lfloor>rnd_idx e * real (length s2)\<rfloor>
                   in s2[idx := (s2 ! idx)\<lparr>alive := False\<rparr>])
                else s2)
      in map (\<lambda>(i, s). update_swarm e i s) (zip [0 ..< length s3] s3))"

definition swarm_frames :: "FrameEnv list \<Rightarrow> Swarm list \<Rightarrow> Swarm list" where
  \<comment> \<open>successive frames of one run of the animation loop, that is with no re-run of the
      effect in between\<close>
  "swarm_frames envs swarms = foldl (\<lambda>ss e. swarm_frame e ss) swarms envs"

definition effect_start :: "real \<Rightarrow> (nat \<Rightarrow> Spawn) \<Rightarrow> Swarm list" where
  \<comment> \<open>the seeding in the body of the effect, which React runs at mount and again whenever
      \<^verbatim>\<open>analyser\<close>, \<^verbatim>\<open>combo\<close>, \<^verbatim>\<open>mode\<close> or \<^verbatim>\<open>debugOpen\<close> changes:
      \<^verbatim>\<open>swarmsRef.current = []; const initial = Math.floor(2 + Math.random() * 3);
      for (let i = 0; i < initial; i++) swarmsRef.current.push(spawnSwarm());\<close>
      The number \<open>r\<close> is the draw for \<^verbatim>\<open>initial\<close>, \<open>spawn_of i\<close> the draws of the \<open>i\<close>-th
      \<^verbatim>\<open>spawnSwarm()\<close>.  The previous collection is discarded.\<close>
  "effect_start r spawn_of = map (\<lambda>i. new_swarm (spawn_of i)) [0 ..< nat \<lfloor>2 + r * 3\<rfloor>]"

datatype SwarmEvent =
  Frame FrameEnv                     \<comment> \<open>one call of \<^verbatim>\<open>drawSwarms\<close>\<close>
| Rerun real "nat \<Rightarrow> Spawn"          \<comment> \<open>a re-run of the effect\<close>

fun swarm_event :: "SwarmEvent \<Rightarrow> Swarm list \<Rightarrow> Swarm list" where
  "swarm_event (Frame e) swarms = swarm_frame e swarms"
| "swarm_event (Rerun r spawn_of) swarms = effect_start r spawn_of"

definition swarm_session :: "SwarmEvent list \<Rightarrow> Swarm list \<Rightarrow> Swarm list" where
  \<comment> \<open>\<^verbatim>\<open>swarmsRef.current\<close> over the life of the component: frames and re-runs of the effect
      in the order they happen\<close>
  "swarm_session events swarms = foldl (\<lambda>ss ev. swarm_event ev ss) swarms events"


section \<open>Notions used to state the properties\<close>

text \<open>
  These definitions are not translations of source functions.  They name what the
  properties below talk about: the samples an accumulator was fed, a frame that accepts no
  pitch, a lag that qualifies, a boid inside the canvas.
\<close>

subsection \<open>Pitch\<close>

definition consecutive_differences :: "real list \<Rightarrow> real list" where
  \<comment> \<open>the differences \<open>xs\<^sub>1 - xs\<^sub>0, xs\<^sub>2 - xs\<^sub>1, \<dots>\<close> of a sequence\<close>
  "consecutive_differences xs = map2 (\<lambda>b a. b - a) (tl xs) xs"

definition all_or_none :: "PitchResult \<Rightarrow> bool" where
  \<comment> \<open>a pitch estimate is either complete or the empty one\<close>
  "all_or_none r \<longleftrightarrow>
     (\<exists>f m n. frequency r = Some f \<and> midi r = Some m \<and> note_name r = Some n) \<or>
     (frequency r = None \<and> midi r = None \<and> note_name r = None \<and> clarity r = 0)"

definition rejects :: "PitchResult option \<Rightarrow> bool" where
  \<comment> \<open>a frame whose fused estimate is not accepted: no waveform, or the test
      \<^verbatim>\<open>pitchMidi && clarity > 0.3\<close> fails\<close>
  "rejects best = (case best of None \<Rightarrow> True | Some r \<Rightarrow> \<not> accepted r)"

subsection \<open>Error accumulators\<close>

definition running_mean_feed :: "real \<times> nat \<Rightarrow> real \<Rightarrow> real \<times> nat" where
  \<comment> \<open>one incremental update of a pair (mean, count) with a sample\<close>
  "running_mean_feed acc v =
     (case acc of (mean, cnt) \<Rightarrow> ((mean * real cnt + v) / (real cnt + 1), cnt + 1))"

definition score_all :: "(real \<times> real \<times> real option) list \<Rightarrow> Tracker \<Rightarrow> Tracker" where
  \<comment> \<open>a session's scorings in order: each is (dequeued prediction, accepted midi note,
      its frequency or null)\<close>
  "score_all xs s = foldl (\<lambda>t (pred, pm, hz). score_prediction pred pm hz t) s xs"

definition semi_samples :: "(real \<times> real \<times> real option) list \<Rightarrow> real list" where
  \<comment> \<open>the samples fed to the semitone accumulator\<close>
  "semi_samples xs = map (\<lambda>(pred, pm, hz). \<bar>pred - pm\<bar>) xs"

definition hz_samples :: "(real \<times> real \<times> real option) list \<Rightarrow> real list" where
  \<comment> \<open>the samples fed to the Hz accumulator: only scorings with a truthy frequency\<close>
  "hz_samples xs =
     concat (map (\<lambda>(pred, pm, hz).
                    case hz of None \<Rightarrow> []
                    | Some h \<Rightarrow> if h = 0 then [] else [\<bar>midiToFreq pred - h\<bar>]) xs)"

definition cents_samples :: "(real \<times> real \<times> real option) list \<Rightarrow> real list" where
  \<comment> \<open>the samples fed to the cents accumulator\<close>
  "cents_samples xs =
     concat (map (\<lambda>(pred, pm, hz).
                    case hz of None \<Rightarrow> []
                    | Some h \<Rightarrow> if h = 0 then [] else [\<bar>1200 * log 2 (h / midiToFreq pred)\<bar>]) xs)"

subsection \<open>Tempo\<close>



subsection \<open>Boids\<close>




section \<open>Concrete inputs\<close>

subsection \<open>Waveforms and spectra\<close>

definition w46 :: "real list" where
  \<comment> \<open>a waveform of 46 samples that repeats after 44 samples\<close>
  "w46 = [1, -1, 0, 0, 0, 0, 0, 0, 0, 0, 0, 0, 0, 0, 0, 0, 0, 0, 0, 0, 0, 0, 0,
          0, 0, 0, 0, 0, 0, 0, 0, 0, 0, 0, 0, 0, 0, 0, 0, 0, 0, 0, 0, 0, 1, -1]"

definition td46 :: "nat list" where
  \<comment> \<open>the same shape as bytes of \<^verbatim>\<open>getByteTimeDomainData\<close>: 128 is silence\<close>
  "td46 = [255, 1, 128, 128, 128, 128, 128, 128, 128, 128, 128, 128, 128, 128, 128, 128,
           128, 128, 128, 128, 128, 128, 128, 128, 128, 128, 128, 128, 128, 128, 128, 128,
           128, 128, 128, 128, 128, 128, 128, 128, 128, 128, 128, 128, 255, 1]"

definition mag2 :: "real list" where
  \<comment> \<open>two bins, the first one just below 1\<close>
  "mag2 = [1 - 1 / 10 ^ 12, 0]"

definition mag_dc :: "real list" where
  \<comment> \<open>512 bins, silent (-140) but for bin 0\<close>
  "mag_dc = - 130 # replicate 511 (- 140)"

definition mag_floor :: "real list" where
  \<comment> \<open>512 silent bins\<close>
  "mag_floor = replicate 512 (- 140)"

definition c_major_triad :: "real list" where
  \<comment> \<open>a chroma histogram with the pitch classes C, E and G\<close>
  "c_major_triad = [1, 0, 0, 0, 1, 0, 0, 1, 0, 0, 0, 0]"

definition cmaj_bin :: "nat \<Rightarrow> real" where
  \<comment> \<open>a spectrum that is silent but for one bin per pitch class; at 46.875 Hz per bin the
      bins 89, 95, 25, 53, 14, 15, 63, 67, 71, 75, 20, 21 fall on C, C#, \<dots>, B, and each
      carries the power of the C-major profile for its class\<close>
  "cmaj_bin k =
     (if k = 89 then - 133.65 else if k = 95 then - 137.77 else if k = 25 then - 136.52
      else if k = 53 then - 137.67 else if k = 14 then - 135.62 else if k = 15 then - 135.91
      else if k = 63 then - 137.48 else if k = 67 then - 134.81 else if k = 71 then - 137.61
      else if k = 75 then - 136.34 else if k = 20 then - 137.71 else if k = 21 then - 137.12
      else - 140)"

definition mag_cmaj :: "real list" where
  "mag_cmaj = map cmaj_bin [0 ..< 512]"

subsection \<open>Tracker states\<close>

definition scorings3 :: "(real \<times> real \<times> real option) list" where
  \<comment> \<open>three scorings; only the first knows the actual frequency\<close>
  "scorings3 = [(66, 65, Some 440), (60, 62, None), (64, 64.5, Some 0)]"

definition tracker3 :: Tracker where
  \<comment> \<open>three accepted notes, nothing predicted yet\<close>
  "tracker3 = tracker0\<lparr>midiHist := [60, 62, 64]\<rparr>"

subsection \<open>Boids and swarms\<close>


definition boid0 :: Boid where
  "boid0 = \<lparr>pos_x = 400, pos_y = 300, vel_x = 0, vel_y = 0, hue = 0\<rparr>"

definition swarm_live :: Swarm where
  "swarm_live = \<lparr>boids = [boid0], hueBase = 0, life = 1, alive = True, targetPhase = 0\<rparr>"

definition swarm_dead :: Swarm where
  \<comment> \<open>despawned and fully faded\<close>
  "swarm_dead = \<lparr>boids = [boid0], hueBase = 120, life = 0, alive = False, targetPhase = 2\<rparr>"

definition swarm_dying :: Swarm where
  \<comment> \<open>just despawned\<close>
  "swarm_dying = \<lparr>boids = [boid0], hueBase = 240, life = 1, alive = False, targetPhase = 4\<rparr>"

definition dying3 :: "Swarm list" where
  "dying3 = [swarm_live, swarm_live, swarm_dying]"

definition swarms3 :: "Swarm list" where
  "swarms3 = [swarm_live, swarm_live, swarm_dead]"

definition env0 :: FrameEnv where
  \<comment> \<open>a frame without clap whose draws trigger neither spawn nor despawn\<close>
  "env0 = \<lparr>env_W = 800, env_H = 600, isClap = False,
            clap_spawn = \<lparr>sp_boids = [boid0], sp_hue = 0, sp_phase = 0\<rparr>,
            rnd_spawn = 0.5,
            base_spawn = \<lparr>sp_boids = [boid0], sp_hue = 0, sp_phase = 0\<rparr>,
            rnd_despawn = 0.5, rnd_idx = 0.5, hueDriftRate = 35,
            target_of = (\<lambda>i. (400, 300)), drive = 0.15\<rparr>"

section \<open>The note predictor\<close>

lemma push_intervals_eq:
  "push_intervals xs i acc = acc @ map (\<lambda>j. xs ! j - xs ! (j - 1)) [i ..< length xs]"
proof (induction xs i acc rule: push_intervals.induct)
  case (1 xs i acc)
  show ?case
  proof (cases "i < length xs")
    case True
    then have "[i ..< length xs] = i # [i + 1 ..< length xs]"
      by (simp add: upt_conv_Cons)
    with True 1 show ?thesis
      by (simp add: push_intervals.simps [of xs i acc])
  next
    case False
    then show ?thesis by (simp add: push_intervals.simps [of xs i acc])
  qed
qed

lemma consecutive_differences_nth:
  "consecutive_differences xs = map (\<lambda>j. xs ! j - xs ! (j - 1)) [1 ..< length xs]"
  unfolding consecutive_differences_def
  by (rule nth_equalityI) (auto simp: nth_tl)

lemma push_intervals_spec: "push_intervals xs (Suc 0) [] = consecutive_differences xs"
  by (simp add: push_intervals_eq consecutive_differences_nth)

lemma length_consecutive_differences [simp]:
  "length (consecutive_differences xs) = length xs - 1"
  by (simp add: consecutive_differences_def)

lemma or_zero_Some [simp]: "or_zero (Some x) = x"
  by (simp add: or_zero_def)

lemma length_slice_last [simp]: "length (slice_last k xs) = min k (length xs)"
  by (simp add: slice_last_def)

lemma last_slice_last:
  assumes "xs \<noteq> []" and "0 < k"
  shows "slice_last k xs ! (length (slice_last k xs) - 1) = last xs"
proof -
  from assms have d: "length xs - k < length xs" by (cases xs) auto
  then have "slice_last k xs \<noteq> []" by (simp add: slice_last_def)
  then have "slice_last k xs ! (length (slice_last k xs) - 1) = last (slice_last k xs)"
    by (simp add: last_conv_nth)
  also have "\<dots> = last xs" using d by (simp add: slice_last_def)
  finally show ?thesis .
qed

text \<open>
  Claim C3.  \<^verbatim>\<open>predictNextMidi\<close> returns null for a history of fewer than 3 notes.  For a
  history of at least 3 notes it looks at the last 8 only, sorts their consecutive
  differences, takes the element at index \<open>\<lfloor>len / 2\<rfloor>\<close> as the median interval and returns
  the last note plus median times horizon.  On \<open>[60, 62, 64]\<close> the prediction is 66, on
  \<open>[60, 61]\<close> it is null.
\<close>

theorem predictNextMidi_median:
  "(length history < 3 \<longrightarrow> predictNextMidi history horizon = None) \<and>
   (3 \<le> length history \<longrightarrow>
      predictNextMidi history horizon =
        Some (last history
              + sort (consecutive_differences (slice_last 8 history))
                  ! (length (consecutive_differences (slice_last 8 history)) div 2)
                * horizon)) \<and>
   predictNextMidi [60, 62, 64] 1 = Some 66 \<and>
   predictNextMidi [60, 61] 1 = None"
proof (intro conjI impI)
  show "predictNextMidi history horizon = None" if "length history < 3"
    using that by (simp add: predictNextMidi_def)
next
  assume len: "3 \<le> length history"
  let ?xs = "slice_last 8 history"
  let ?ds = "sort (consecutive_differences ?xs)"
  have l: "3 \<le> length ?xs" using len by simp
  have "length ?ds = length ?xs - 1" by simp
  with l have idx: "length ?ds div 2 < length ?ds" by simp
  have lst: "?xs ! (length ?xs - 1) = last history"
    using len by (intro last_slice_last) auto
  show "predictNextMidi history horizon
        = Some (last history + ?ds ! (length (consecutive_differences ?xs) div 2) * horizon)"
    using l idx lst
    by (simp add: predictNextMidi_def Let_def push_intervals_spec read_at_def
        del: length_slice_last)
next
  show "predictNextMidi [60, 62, 64] 1 = Some 66"
    by (simp add: predictNextMidi_def slice_last_def push_intervals_spec
        consecutive_differences_def read_at_def)
next
  show "predictNextMidi [60, 61] 1 = None"
    by (simp add: predictNextMidi_def slice_last_def)
qed

text \<open>
  The theorem of claim C3 on a history of four notes with horizon 2 (sorted differences
  \<open>[-3, 2, 2]\<close>, median 2) and on a history of two notes.
\<close>

theorem predictNextMidi_median_witness:
  "length [60, 62, 64, 61 :: real] = 4 \<and>
   predictNextMidi [60, 62, 64, 61] 2 = Some 65 \<and>
   length [60, 61 :: real] = 2 \<and> predictNextMidi [60, 61] 1 = None"
  using predictNextMidi_median [of "[60, 62, 64, 61]" 2]
  by (simp add: slice_last_def consecutive_differences_def)


section \<open>The pitch estimators\<close>


lemma acf_loop_cases:
  "acf_loop buf lag maxLag (bl0, bv0) = (bl, bv) \<Longrightarrow>
     (bl, bv) = (bl0, bv0) \<or>
     (lag \<le> bl \<and> bl \<le> maxLag \<and> acf_val buf bl = Some bv \<and> bv > bv0)"
proof (induction buf lag maxLag "(bl0, bv0)" arbitrary: bl0 bv0 rule: acf_loop.induct)
  case (1 buf lag maxLag bestLag bestVal)
  show ?case
  proof (cases "lag \<le> maxLag")
    case False
    with "1.prems" show ?thesis by (simp add: acf_loop.simps [of buf lag])
  next
    case True
    let ?next = "(case acf_val buf lag of
             Some val \<Rightarrow> if val > bestVal then (lag, val) else (bestLag, bestVal)
           | None \<Rightarrow> (bestLag, bestVal))"
    obtain nl nv where nx: "?next = (nl, nv)" by (cases ?next)
    from True "1.prems" nx have run: "acf_loop buf (lag + 1) maxLag (nl, nv) = (bl, bv)"
      by (simp add: acf_loop.simps [of buf lag])
    from "1.hyps" [OF True nx run]
    have ih: "(bl, bv) = (nl, nv) \<or>
              (lag + 1 \<le> bl \<and> bl \<le> maxLag \<and> acf_val buf bl = Some bv \<and> bv > nv)" .
    from nx have step: "(nl, nv) = (bestLag, bestVal) \<or>
                        (nl = lag \<and> acf_val buf lag = Some nv \<and> nv > bestVal)"
      by (auto split: option.splits if_splits)
    from ih step True show ?thesis by auto
  qed
qed

lemma acf_loop_none:
  "(\<And>l v. lag \<le> l \<Longrightarrow> l \<le> maxLag \<Longrightarrow> acf_val buf l = Some v \<Longrightarrow> v \<le> bv0) \<Longrightarrow>
   acf_loop buf lag maxLag (bl0, bv0) = (bl0, bv0)"
proof (induction buf lag maxLag "(bl0, bv0)" rule: acf_loop.induct)
  case (1 buf lag maxLag)
  show ?case
  proof (cases "lag \<le> maxLag")
    case False
    then show ?thesis by (simp add: acf_loop.simps [of buf lag])
  next
    case True
    have keep: "(case acf_val buf lag of
             Some val \<Rightarrow> if val > bv0 then (lag, val) else (bl0, bv0)
           | None \<Rightarrow> (bl0, bv0)) = (bl0, bv0)"
      using "1.prems" [of lag] True by (auto split: option.splits)
    have "acf_loop buf (lag + 1) maxLag (bl0, bv0) = (bl0, bv0)"
    proof (rule "1.hyps" [OF True keep])
      fix l v
      assume "lag + 1 \<le> l" "l \<le> maxLag" "acf_val buf l = Some v"
      then show "v \<le> bv0" using "1.prems" [of l v] by simp
    qed
    with True keep show ?thesis by (simp add: acf_loop.simps [of buf lag])
  qed
qed

lemma acf_val_beyond:
  "int (length buf) \<le> lag \<Longrightarrow> acf_val buf lag = Some v \<Longrightarrow> v = 0"
  by (auto simp: acf_val_def split: if_splits)

lemma acf_loop_beyond:
  "int (length buf) \<le> lag \<Longrightarrow> 0 \<le> bv \<Longrightarrow> acf_loop buf lag maxLag (bl, bv) = (bl, bv)"
proof (rule acf_loop_none)
  fix l v
  assume a: "int (length buf) \<le> lag" "0 \<le> bv" "lag \<le> l" "acf_val buf l = Some v"
  then have "v = 0" by (intro acf_val_beyond [of buf l v]) auto
  with a show "v \<le> bv" by simp
qed

lemma clarity_no_pitch [simp]: "clarity no_pitch = 0" "frequency no_pitch = None"
  "midi no_pitch = None" "note_name no_pitch = None"
  by (simp_all add: no_pitch_def)

text \<open>
  Claim C2, as the code has it.  With \<^verbatim>\<open>minFreq = 50\<close> and \<^verbatim>\<open>maxFreq = 1000\<close>, for every
  waveform and sample rate the confidence of \<^verbatim>\<open>detectPitchACF\<close> lies in \<open>[0, 1]\<close>; a
  non-null frequency is \<open>sampleRate / lag\<close> for an integer lag with
  \<open>\<lfloor>sampleRate / maxFreq\<rfloor> \<le> lag \<le> \<lfloor>sampleRate / minFreq\<rfloor>\<close> and \<open>1 \<le> lag\<close> (the bounds of
  the search are the floors of the two quotients); and when no candidate lag has a
  positive normalised autocorrelation the result is the empty estimate: frequency, midi
  and note null, confidence 0.
\<close>

theorem detectPitchACF_result:
  "0 \<le> clarity (detectPitchACF time sr 50 1000) \<and>
   clarity (detectPitchACF time sr 50 1000) \<le> 1 \<and>
   (\<forall>f. frequency (detectPitchACF time sr 50 1000) = Some f \<longrightarrow>
      (\<exists>lag::int. \<lfloor>sr / 1000\<rfloor> \<le> lag \<and> lag \<le> \<lfloor>sr / 50\<rfloor> \<and> 1 \<le> lag \<and>
         f = sr / real_of_int lag)) \<and>
   ((\<forall>lag v. \<lfloor>sr / 1000\<rfloor> \<le> lag \<and> lag \<le> \<lfloor>sr / 50\<rfloor> \<and>
        acf_val (remove_dc_normalize time) lag = Some v \<longrightarrow> v \<le> 0) \<longrightarrow>
      detectPitchACF time sr 50 1000 = no_pitch)"
proof -
  let ?buf = "remove_dc_normalize time"
  obtain bl bv where run: "acf_loop ?buf \<lfloor>sr / 1000\<rfloor> \<lfloor>sr / 50\<rfloor> (- 1, 0) = (bl, bv)"
    by (cases "acf_loop ?buf \<lfloor>sr / 1000\<rfloor> \<lfloor>sr / 50\<rfloor> (- 1, 0)")
  have r: "detectPitchACF time sr 50 1000 =
        (if bl \<le> 0 then no_pitch
         else \<lparr>frequency = Some (sr / real_of_int bl),
               midi = Some (freqToMidi (sr / real_of_int bl)),
               note_name = Some (midiToNoteName (freqToMidi (sr / real_of_int bl))),
               clarity = min 1 (max 0 bv)\<rparr>)"
    using run by (simp add: detectPitchACF_def Let_def)
  have c: "0 \<le> clarity (detectPitchACF time sr 50 1000) \<and>
           clarity (detectPitchACF time sr 50 1000) \<le> 1"
    by (simp add: r)
  have f: "\<exists>lag::int. \<lfloor>sr / 1000\<rfloor> \<le> lag \<and> lag \<le> \<lfloor>sr / 50\<rfloor> \<and> 1 \<le> lag \<and>
         f = sr / real_of_int lag"
    if "frequency (detectPitchACF time sr 50 1000) = Some f" for f
  proof -
    from that have pos: "0 < bl" and fe: "f = sr / real_of_int bl"
      by (auto simp: r split: if_splits)
    from acf_loop_cases [OF run] pos
    have "\<lfloor>sr / 1000\<rfloor> \<le> bl \<and> bl \<le> \<lfloor>sr / 50\<rfloor>" by auto
    with pos fe show ?thesis by (intro exI [of _ bl]) auto
  qed
  have n: "detectPitchACF time sr 50 1000 = no_pitch"
    if "\<forall>lag v. \<lfloor>sr / 1000\<rfloor> \<le> lag \<and> lag \<le> \<lfloor>sr / 50\<rfloor> \<and>
        acf_val ?buf lag = Some v \<longrightarrow> v \<le> 0"
  proof -
    have "acf_loop ?buf \<lfloor>sr / 1000\<rfloor> \<lfloor>sr / 50\<rfloor> (- 1, 0) = (- 1, 0)"
      using that by (intro acf_loop_none) blast
    with run have "bl = - 1" by simp
    then show ?thesis by (simp add: r)
  qed
  from c f n show ?thesis by blast
qed

lemma w46_buf: "remove_dc_normalize w46 = w46"
  by (simp add: remove_dc_normalize_def w46_def)

lemma w46_44: "acf_val w46 44 = Some 1"
  by (simp add: acf_val_def w46_def)

lemma w46_45: "acf_val w46 45 = Some (- 1)"
  by (simp add: acf_val_def w46_def)

lemma w46_loop: "acf_loop w46 44 882 (- 1, 0) = (44, 1)"
proof -
  have "acf_loop w46 44 882 (- 1, 0) = acf_loop w46 45 882 (44, 1)"
    by (simp add: acf_loop.simps [of w46 44] w46_44)
  also have "\<dots> = acf_loop w46 46 882 (44, 1)"
    by (simp add: acf_loop.simps [of w46 45] w46_45)
  also have "\<dots> = (44, 1)"
    by (rule acf_loop_beyond) (simp_all add: w46_def)
  finally show ?thesis .
qed

lemma w46_frequency: "frequency (detectPitchACF w46 44100 50 1000) = Some (44100 / 44)"
  by (simp add: detectPitchACF_def w46_buf w46_loop Let_def)


text \<open>
  Claim C2 as stated asks for a lag inside \<open>[sampleRate / maxFreq, sampleRate / minFreq]\<close>.
  At 44100 Hz the search starts at \<open>\<lfloor>44.1\<rfloor> = 44\<close>: on \<open>w46\<close> the best lag is 44, the
  frequency is \<open>44100 / 44\<close> (above \<^verbatim>\<open>maxFreq\<close>), and no integer lag of the interval
  \<open>[44.1, 882]\<close> gives that frequency.
\<close>

theorem detectPitchACF_lag_counterexample:
  "frequency (detectPitchACF w46 44100 50 1000) = Some (44100 / 44) \<and>
   \<not> (\<exists>lag::int. 44100 / 1000 \<le> real_of_int lag \<and> real_of_int lag \<le> 44100 / 50 \<and>
          (44100 / 44 :: real) = 44100 / real_of_int lag)"
proof
  show "frequency (detectPitchACF w46 44100 50 1000) = Some (44100 / 44)"
    by (rule w46_frequency)
next
  show "\<not> (\<exists>lag::int. 44100 / 1000 \<le> real_of_int lag \<and> real_of_int lag \<le> 44100 / 50 \<and>
          (44100 / 44 :: real) = 44100 / real_of_int lag)"
  proof
    assume "\<exists>lag::int. 44100 / 1000 \<le> real_of_int lag \<and> real_of_int lag \<le> 44100 / 50 \<and>
          (44100 / 44 :: real) = 44100 / real_of_int lag"
    then obtain lag :: int where lo: "44100 / 1000 \<le> real_of_int lag"
      and eq: "(44100 / 44 :: real) = 44100 / real_of_int lag" by blast
    from lo have "0 < real_of_int lag" by simp
    with eq have "real_of_int lag = 44" by (simp add: field_simps)
    with lo show False by simp
  qed
qed

lemma sum_list_all_zero:
  "(\<And>x. x \<in> set xs \<Longrightarrow> f x = 0) \<Longrightarrow> sum_list (map f xs) = (0::real)"
  by (induction xs) auto

lemma acf_val_silence:
  assumes "\<forall>i < length buf. buf ! i = 0" and "acf_val buf lag = Some v"
  shows "v = 0"
proof -
  have "sum_list (map (\<lambda>i. buf ! i * buf ! (i + nat lag)) [0 ..< length buf - nat lag]) = 0"
    using assms(1) by (intro sum_list_all_zero) auto
  with assms(2) show ?thesis by (auto simp: acf_val_def split: if_splits)
qed

text \<open>
  The theorem of claim C2 at \<open>w46\<close> (a pitch is found) and at a silent waveform (no lag
  has a positive value).
\<close>

theorem detectPitchACF_result_witness:
  "frequency (detectPitchACF w46 44100 50 1000) = Some (44100 / 44) \<and>
   (\<exists>lag::int. \<lfloor>44100 / 1000 :: real\<rfloor> \<le> lag \<and> lag \<le> \<lfloor>44100 / 50 :: real\<rfloor> \<and> 1 \<le> lag \<and>
      (44100 / 44 :: real) = 44100 / real_of_int lag) \<and>
   detectPitchACF [0, 0, 0, 0] 44100 50 1000 = no_pitch"
proof -
  have silent: "remove_dc_normalize [0, 0, 0, 0] = [0, 0, 0, 0]"
    by (simp add: remove_dc_normalize_def)
  have "\<forall>lag v. \<lfloor>44100 / 1000 :: real\<rfloor> \<le> lag \<and> lag \<le> \<lfloor>44100 / 50 :: real\<rfloor> \<and>
        acf_val (remove_dc_normalize [0, 0, 0, 0]) lag = Some v \<longrightarrow> v \<le> 0"
    unfolding silent
  proof (intro allI impI)
    fix lag :: int and v :: real
    assume "\<lfloor>44100 / 1000 :: real\<rfloor> \<le> lag \<and> lag \<le> \<lfloor>44100 / 50 :: real\<rfloor> \<and>
        acf_val [0, 0, 0, 0] lag = Some v"
    then have "acf_val [0, 0, 0, 0] lag = Some v" by blast
    then have "v = 0"
      by (rule acf_val_silence [rotated]) (simp add: nth_Cons' )
    then show "v \<le> 0" by simp
  qed
  with detectPitchACF_result [of "[0, 0, 0, 0]" 44100] w46_frequency
    detectPitchACF_result [of w46 44100]
  show ?thesis by blast
qed

lemma simpleCepstrumPitch_shape:
  "(\<exists>f m n. frequency (simpleCepstrumPitch mag sr) = Some f \<and>
             midi (simpleCepstrumPitch mag sr) = Some m \<and>
             note_name (simpleCepstrumPitch mag sr) = Some n) \<or>
   simpleCepstrumPitch mag sr = no_pitch"
  by (simp add: simpleCepstrumPitch_def Let_def split: prod.splits)

lemma detectPitchACF_shape:
  "(\<exists>f m n. frequency (detectPitchACF time sr lo hi) = Some f \<and>
             midi (detectPitchACF time sr lo hi) = Some m \<and>
             note_name (detectPitchACF time sr lo hi) = Some n) \<or>
   detectPitchACF time sr lo hi = no_pitch"
  by (simp add: detectPitchACF_def Let_def split: prod.splits)

lemma all_or_none_no_pitch: "all_or_none no_pitch"
  by (simp add: all_or_none_def)

text \<open>
  Claim C4.  Each of the two estimators returns either frequency, midi and note all
  non-null, or all null with confidence 0; and the fused estimate of a frame is the
  autocorrelation result when its confidence is at least the cepstrum result's (ties
  included), the cepstrum result otherwise.  The fused estimate is all-or-none as well,
  also when the magnitude array is missing.
\<close>

theorem estimators_all_or_none_and_fusion:
  "all_or_none (detectPitchACF time sr 50 1000) \<and>
   all_or_none (simpleCepstrumPitch mag sr) \<and>
   (clarity (detectPitchACF (map (\<lambda>v. (real v - 128) / 128) td) sr 50 1000)
      \<ge> clarity (simpleCepstrumPitch mag sr) \<longrightarrow>
    fused_estimate (Some td) (Some mag) sr
      = Some (detectPitchACF (map (\<lambda>v. (real v - 128) / 128) td) sr 50 1000)) \<and>
   (clarity (detectPitchACF (map (\<lambda>v. (real v - 128) / 128) td) sr 50 1000)
      < clarity (simpleCepstrumPitch mag sr) \<longrightarrow>
    fused_estimate (Some td) (Some mag) sr = Some (simpleCepstrumPitch mag sr)) \<and>
   (\<forall>r. fused_estimate (Some td) magopt sr = Some r \<longrightarrow> all_or_none r)"
proof (intro conjI impI allI)
  show a: "all_or_none (detectPitchACF time sr 50 1000)" for time
    using detectPitchACF_shape [of time sr 50 1000]
    by (auto simp: all_or_none_def)
  show c: "all_or_none (simpleCepstrumPitch mag sr)" for mag
    using simpleCepstrumPitch_shape [of mag sr]
    by (auto simp: all_or_none_def)
  show "all_or_none r" if "fused_estimate (Some td) magopt sr = Some r" for r
    using that a c all_or_none_no_pitch
    by (auto simp: fused_estimate_def fuse_def Let_def split: option.splits if_splits)
qed (simp_all add: fused_estimate_def fuse_def)


lemma cep2: "cepstrum_of (map (\<lambda>m. ln (1 / 10 ^ 12 + max 0 m)) mag2) = [ln (1 / 10 ^ 12), - ln (1 / 10 ^ 12)]"
  by (simp add: cepstrum_of_def mag2_def upt_rec_numeral)

lemma cep2_loop: "cep_loop [ln (1 / 10 ^ 12), - ln (1 / 10 ^ 12)] 1 1 (- 1, - (10 ^ 9)) = (1, - ln (1 / 10 ^ 12))"
proof -
  have "ln (1 / 10 ^ 12 :: real) < 10 ^ 9"
    by (rule order_less_trans [of _ 0]) simp_all
  then show ?thesis
    by (simp add: cep_loop.simps [of _ 1] cep_loop.simps [of _ 2] cep_read_def)
qed

lemma r2_clarity: "0 < clarity (simpleCepstrumPitch mag2 500)"
proof -
  have q1: "\<lfloor>500 / 500 :: real\<rfloor> = 1" by simp
  have q2: "min (int (length mag2) - 1) \<lfloor>500 / 50 :: real\<rfloor> = 1" by (simp add: mag2_def)
  have "clarity (simpleCepstrumPitch mag2 500)
        = max 0 (min 1 ((- ln (1 / 10 ^ 12)) / (1000 + \<bar>- ln (1 / 10 ^ 12 :: real)\<bar>)))"
    apply (simp only: simpleCepstrumPitch_def Let_def cep2 q1 q2 cep2_loop prod.case)
    apply simp
    done
  moreover have "0 < (- ln (1 / 10 ^ 12)) / (1000 + \<bar>- ln (1 / 10 ^ 12 :: real)\<bar>)"
  proof (rule divide_pos_pos)
    show "0 < - ln (1 / 10 ^ 12 :: real)" by simp
    show "0 < 1000 + \<bar>- ln (1 / 10 ^ 12 :: real)\<bar>"
      by (rule add_pos_nonneg) simp_all
  qed
  ultimately show ?thesis by simp
qed


lemma td46_buf: "remove_dc_normalize (map (\<lambda>v. (real v - 128) / 128) td46) = w46"
  by (simp add: remove_dc_normalize_def td46_def w46_def)

lemma td46_clarity:
  "clarity (detectPitchACF (map (\<lambda>v. (real v - 128) / 128) td46) 44100 50 1000) = 1"
  by (simp add: detectPitchACF_def td46_buf w46_loop Let_def)

lemma short_mag_no_pitch: "simpleCepstrumPitch [- 50, - 60, - 70, - 80] 44100 = no_pitch"
  by (simp add: simpleCepstrumPitch_def Let_def cep_loop.simps [of _ 88])

lemma silence_buf: "remove_dc_normalize [0, 0, 0, 0] = [0, 0, 0, 0]"
  by (simp add: remove_dc_normalize_def)

lemma silence_no_pitch: "detectPitchACF [0, 0, 0, 0] sr 50 1000 = no_pitch"
proof -
  have "acf_loop [0, 0, 0, 0] lo hi (- 1, 0) = (- 1, 0)" for lo hi
  proof (rule acf_loop_none)
    fix l :: int and v :: real
    assume "acf_val [0, 0, 0, 0] l = Some v"
    then have "v = 0" by (rule acf_val_silence [rotated]) (simp add: nth_Cons')
    then show "v \<le> 0" by simp
  qed
  then show ?thesis by (simp add: detectPitchACF_def silence_buf)
qed

text \<open>
  The theorem of claim C4 on three frames: the autocorrelation estimate wins with
  confidence 1 against 0, the cepstrum estimate wins against a silent waveform, and
  without a magnitude array the fused estimate is the autocorrelation one.
\<close>

theorem estimators_all_or_none_and_fusion_witness:
  "fused_estimate (Some td46) (Some [- 50, - 60, - 70, - 80]) 44100
     = Some (detectPitchACF (map (\<lambda>v. (real v - 128) / 128) td46) 44100 50 1000) \<and>
   fused_estimate (Some [128, 128, 128, 128]) (Some mag2) 500
     = Some (simpleCepstrumPitch mag2 500) \<and>
   all_or_none (simpleCepstrumPitch mag2 500) \<and>
   all_or_none (detectPitchACF (map (\<lambda>v. (real v - 128) / 128) td46) 44100 50 1000)"
proof -
  have a: "clarity (detectPitchACF (map (\<lambda>v. (real v - 128) / 128) td46) 44100 50 1000)
           \<ge> clarity (simpleCepstrumPitch [- 50, - 60, - 70, - 80] 44100)"
    by (simp add: td46_clarity short_mag_no_pitch)
  have b: "clarity (detectPitchACF (map (\<lambda>v. (real v - 128) / 128) [128, 128, 128, 128])
                      500 50 1000)
           < clarity (simpleCepstrumPitch mag2 500)"
    using r2_clarity by (simp add: silence_no_pitch)
  from a b
    estimators_all_or_none_and_fusion
      [where td = td46 and mag = "[- 50, - 60, - 70, - 80]" and sr = 44100
         and time = "map (\<lambda>v. (real v - 128) / 128) td46"]
    estimators_all_or_none_and_fusion
      [where td = "[128, 128, 128, 128]" and mag = mag2 and sr = 500]
  show ?thesis by blast
qed


section \<open>The error accumulators\<close>

lemma running_mean_step:
  fixes m e :: real and c :: nat
  shows "(m * real c + e) / (real c + 1) * real (Suc c) = m * real c + e"
proof -
  have nz: "real c + 1 \<noteq> 0" using of_nat_0_le_iff [of c, where ?'a = real] by linarith
  have s: "real (Suc c) = real c + 1" by simp
  have "(m * real c + e) / (real c + 1) * (real c + 1)
        = (m * real c + e) * (real c + 1) / (real c + 1)"
    by (rule times_divide_eq_left)
  also have "\<dots> = m * real c + e"
    by (rule nonzero_mult_div_cancel_right [OF nz])
  finally show ?thesis unfolding s .
qed

lemma foldl_running_mean:
  "foldl running_mean_feed (m, c) vs = (m', c') \<Longrightarrow>
     c' = c + length vs \<and> m' * real c' = m * real c + sum_list vs"
proof (induction vs arbitrary: m c)
  case Nil
  then show ?case by simp
next
  case (Cons v vs)
  let ?m1 = "(m * real c + v) / (real c + 1)"
  have "running_mean_feed (m, c) v = (?m1, Suc c)"
    by (simp add: running_mean_feed_def)
  with Cons.prems have "foldl running_mean_feed (?m1, Suc c) vs = (m', c')"
    by (simp only: foldl_Cons)
  from Cons.IH [OF this]
  have c': "c' = Suc c + length vs" and m': "m' * real c' = ?m1 * real (Suc c) + sum_list vs"
    by auto
  have "?m1 * real (Suc c) = m * real c + v" by (rule running_mean_step)
  with m' have "m' * real c' = m * real c + v + sum_list vs" by (simp only:)
  with c' show ?case by simp
qed

lemma score_prediction_semi:
  "(errorMAE (score_prediction p pm hz s), errorCount (score_prediction p pm hz s))
     = running_mean_feed (errorMAE s, errorCount s) \<bar>p - pm\<bar>"
  by (simp add: score_prediction_def running_mean_feed_def Let_def split: option.splits)

lemma score_prediction_hz:
  "(errorMAEHz (score_prediction p pm hz s), errorCountHz (score_prediction p pm hz s))
     = (case hz of None \<Rightarrow> (errorMAEHz s, errorCountHz s)
        | Some h \<Rightarrow> if h = 0 then (errorMAEHz s, errorCountHz s)
                    else running_mean_feed (errorMAEHz s, errorCountHz s) \<bar>midiToFreq p - h\<bar>)"
  by (simp add: score_prediction_def running_mean_feed_def Let_def split: option.splits)

lemma score_prediction_cents:
  "(errorMAECents (score_prediction p pm hz s), errorCountCents (score_prediction p pm hz s))
     = (case hz of None \<Rightarrow> (errorMAECents s, errorCountCents s)
        | Some h \<Rightarrow> if h = 0 then (errorMAECents s, errorCountCents s)
                    else running_mean_feed (errorMAECents s, errorCountCents s)
                           \<bar>1200 * log 2 (h / midiToFreq p)\<bar>)"
  by (simp add: score_prediction_def running_mean_feed_def Let_def split: option.splits)

lemma score_all_Cons:
  "score_all ((p, pm, hz) # xs) s = score_all xs (score_prediction p pm hz s)"
  by (simp add: score_all_def)

lemma score_all_semi:
  "(errorMAE (score_all xs s), errorCount (score_all xs s))
     = foldl running_mean_feed (errorMAE s, errorCount s) (semi_samples xs)"
proof (induction xs arbitrary: s)
  case Nil
  show ?case by (simp add: score_all_def semi_samples_def)
next
  case (Cons x xs)
  obtain p pm hz where x: "x = (p, pm, hz)" by (cases x)
  have "semi_samples (x # xs) = \<bar>p - pm\<bar> # semi_samples xs"
    by (simp add: semi_samples_def x)
  then show ?case
    unfolding x score_all_Cons Cons.IH
    by (simp add: score_prediction_semi)
qed

lemma score_all_hz:
  "(errorMAEHz (score_all xs s), errorCountHz (score_all xs s))
     = foldl running_mean_feed (errorMAEHz s, errorCountHz s) (hz_samples xs)"
proof (induction xs arbitrary: s)
  case Nil
  show ?case by (simp add: score_all_def hz_samples_def)
next
  case (Cons x xs)
  obtain p pm hz where x: "x = (p, pm, hz)" by (cases x)
  have "hz_samples (x # xs) =
          (case hz of None \<Rightarrow> [] | Some h \<Rightarrow> if h = 0 then [] else [\<bar>midiToFreq p - h\<bar>])
          @ hz_samples xs"
    by (simp add: hz_samples_def x)
  then show ?case
    unfolding x score_all_Cons Cons.IH
    by (simp add: score_prediction_hz split: option.splits)
qed

lemma score_all_cents:
  "(errorMAECents (score_all xs s), errorCountCents (score_all xs s))
     = foldl running_mean_feed (errorMAECents s, errorCountCents s) (cents_samples xs)"
proof (induction xs arbitrary: s)
  case Nil
  show ?case by (simp add: score_all_def cents_samples_def)
next
  case (Cons x xs)
  obtain p pm hz where x: "x = (p, pm, hz)" by (cases x)
  have "cents_samples (x # xs) =
          (case hz of None \<Rightarrow> []
           | Some h \<Rightarrow> if h = 0 then [] else [\<bar>1200 * log 2 (h / midiToFreq p)\<bar>])
          @ cents_samples xs"
    by (simp add: cents_samples_def x)
  then show ?case
    unfolding x score_all_Cons Cons.IH
    by (simp add: score_prediction_cents split: option.splits)
qed

lemma running_mean_is_mean:
  assumes "foldl running_mean_feed (0, 0) vs = (m, c)" and "vs \<noteq> []"
  shows "c = length vs \<and> m = sum_list vs / real (length vs)"
proof -
  from foldl_running_mean [OF assms(1)]
  have c: "c = length vs" and m: "m * real c = sum_list vs" by auto
  from assms(2) have "real (length vs) \<noteq> 0" by simp
  with m c have "m = sum_list vs / real (length vs)"
    by (simp add: nonzero_eq_divide_eq)
  with c show ?thesis by simp
qed

lemma score_prediction_counts_mono:
  "errorCount s \<le> errorCount (score_prediction p pm hz s)"
  "errorCountHz s \<le> errorCountHz (score_prediction p pm hz s)"
  "errorCountCents s \<le> errorCountCents (score_prediction p pm hz s)"
  by (simp_all add: score_prediction_def Let_def split: option.splits)

lemma accept_pitch_counts_mono:
  "errorCount s \<le> errorCount (accept_pitch b s)"
  "errorCountHz s \<le> errorCountHz (accept_pitch b s)"
  "errorCountCents s \<le> errorCountCents (accept_pitch b s)"
proof -
  have "errorCount s \<le> errorCount (accept_pitch b s) \<and>
        errorCountHz s \<le> errorCountHz (accept_pitch b s) \<and>
        errorCountCents s \<le> errorCountCents (accept_pitch b s)"
  proof (cases "accepted b")
    case False
    then have "accept_pitch b s = s"
      by (auto simp: accepted_def accept_pitch_def split: option.splits)
    then show ?thesis by simp
  next
    case True
    then obtain pm where pm: "midi b = Some pm" "pm \<noteq> 0" "clarity b > 0.3"
      by (auto simp: accepted_def split: option.splits)
    let ?s1 = "s\<lparr>midiHist := push_bounded 128 pm (midiHist s)\<rparr>"
    show ?thesis
    proof (cases "predQueue s")
      case Nil
      with pm have "accept_pitch b s = ?s1"
        by (simp add: accept_pitch_def Let_def)
      then show ?thesis by simp
    next
      case (Cons pred rest)
      with pm have "accept_pitch b s
          = score_prediction pred pm (frequency b) (?s1\<lparr>predQueue := rest\<rparr>)"
        by (simp add: accept_pitch_def Let_def)
      then show ?thesis
        using score_prediction_counts_mono [of "?s1\<lparr>predQueue := rest\<rparr>" pred pm "frequency b"]
        by simp
    qed
  qed
  then show "errorCount s \<le> errorCount (accept_pitch b s)"
    "errorCountHz s \<le> errorCountHz (accept_pitch b s)"
    "errorCountCents s \<le> errorCountCents (accept_pitch b s)"
    by simp_all
qed

lemma track_frame_counts:
  "errorCount (track_frame b s) = errorCount (case b of None \<Rightarrow> s | Some r \<Rightarrow> accept_pitch r s)"
  "errorCountHz (track_frame b s) = errorCountHz (case b of None \<Rightarrow> s | Some r \<Rightarrow> accept_pitch r s)"
  "errorCountCents (track_frame b s)
     = errorCountCents (case b of None \<Rightarrow> s | Some r \<Rightarrow> accept_pitch r s)"
  by (simp_all add: track_frame_def Let_def split: option.splits)

text \<open>
  Claim C8.  Scoring one prediction updates the semitone accumulator by
  \<open>mean' = (mean * count + sample) / (count + 1)\<close>, \<open>count' = count + 1\<close>, and the Hz and
  cents accumulators in the same way whenever the actual frequency is known.  After any
  sequence of scorings that starts from the fresh accumulators, each mean is the sum of
  the samples fed to that accumulator divided by their number, whatever was or was not
  fed to the other two in between; and no frame of the tracker decreases a count.
\<close>

theorem error_accumulators_running_mean:
  "errorMAE (score_prediction p pm hz s)
     = (errorMAE s * real (errorCount s) + \<bar>p - pm\<bar>) / (real (errorCount s) + 1) \<and>
   errorCount (score_prediction p pm hz s) = errorCount s + 1 \<and>
   (\<forall>h. hz = Some h \<and> h \<noteq> 0 \<longrightarrow>
      errorMAEHz (score_prediction p pm hz s)
        = (errorMAEHz s * real (errorCountHz s) + \<bar>midiToFreq p - h\<bar>)
          / (real (errorCountHz s) + 1) \<and>
      errorCountHz (score_prediction p pm hz s) = errorCountHz s + 1 \<and>
      errorMAECents (score_prediction p pm hz s)
        = (errorMAECents s * real (errorCountCents s) + \<bar>1200 * log 2 (h / midiToFreq p)\<bar>)
          / (real (errorCountCents s) + 1) \<and>
      errorCountCents (score_prediction p pm hz s) = errorCountCents s + 1) \<and>
   (semi_samples xs \<noteq> [] \<longrightarrow>
      errorCount (score_all xs tracker0) = length (semi_samples xs) \<and>
      errorMAE (score_all xs tracker0)
        = sum_list (semi_samples xs) / real (length (semi_samples xs))) \<and>
   (hz_samples xs \<noteq> [] \<longrightarrow>
      errorCountHz (score_all xs tracker0) = length (hz_samples xs) \<and>
      errorMAEHz (score_all xs tracker0)
        = sum_list (hz_samples xs) / real (length (hz_samples xs))) \<and>
   (cents_samples xs \<noteq> [] \<longrightarrow>
      errorCountCents (score_all xs tracker0) = length (cents_samples xs) \<and>
      errorMAECents (score_all xs tracker0)
        = sum_list (cents_samples xs) / real (length (cents_samples xs))) \<and>
   errorCount s \<le> errorCount (track_frame best s) \<and>
   errorCountHz s \<le> errorCountHz (track_frame best s) \<and>
   errorCountCents s \<le> errorCountCents (track_frame best s)"
proof -
  have step_semi: "errorMAE (score_prediction p pm hz s)
     = (errorMAE s * real (errorCount s) + \<bar>p - pm\<bar>) / (real (errorCount s) + 1) \<and>
   errorCount (score_prediction p pm hz s) = errorCount s + 1"
    using score_prediction_semi [of p pm hz s] by (simp add: running_mean_feed_def)
  have step_hz: "errorMAEHz (score_prediction p pm hz s)
        = (errorMAEHz s * real (errorCountHz s) + \<bar>midiToFreq p - h\<bar>)
          / (real (errorCountHz s) + 1) \<and>
      errorCountHz (score_prediction p pm hz s) = errorCountHz s + 1 \<and>
      errorMAECents (score_prediction p pm hz s)
        = (errorMAECents s * real (errorCountCents s) + \<bar>1200 * log 2 (h / midiToFreq p)\<bar>)
          / (real (errorCountCents s) + 1) \<and>
      errorCountCents (score_prediction p pm hz s) = errorCountCents s + 1"
    if "hz = Some h \<and> h \<noteq> 0" for h
    using that score_prediction_hz [of p pm hz s] score_prediction_cents [of p pm hz s]
    by (simp add: running_mean_feed_def)
  have t0: "errorMAE tracker0 = 0" "errorCount tracker0 = 0"
    "errorMAEHz tracker0 = 0" "errorCountHz tracker0 = 0"
    "errorMAECents tracker0 = 0" "errorCountCents tracker0 = 0"
    by (simp_all add: tracker0_def)
  have all_semi: "errorCount (score_all xs tracker0) = length (semi_samples xs) \<and>
      errorMAE (score_all xs tracker0)
        = sum_list (semi_samples xs) / real (length (semi_samples xs))"
    if "semi_samples xs \<noteq> []"
    using running_mean_is_mean [OF _ that] score_all_semi [of xs tracker0, symmetric]
    by (simp add: t0)
  have all_hz: "errorCountHz (score_all xs tracker0) = length (hz_samples xs) \<and>
      errorMAEHz (score_all xs tracker0)
        = sum_list (hz_samples xs) / real (length (hz_samples xs))"
    if "hz_samples xs \<noteq> []"
    using running_mean_is_mean [OF _ that] score_all_hz [of xs tracker0, symmetric]
    by (simp add: t0)
  have all_cents: "errorCountCents (score_all xs tracker0) = length (cents_samples xs) \<and>
      errorMAECents (score_all xs tracker0)
        = sum_list (cents_samples xs) / real (length (cents_samples xs))"
    if "cents_samples xs \<noteq> []"
    using running_mean_is_mean [OF _ that] score_all_cents [of xs tracker0, symmetric]
    by (simp add: t0)
  have mono: "errorCount s \<le> errorCount (track_frame best s) \<and>
   errorCountHz s \<le> errorCountHz (track_frame best s) \<and>
   errorCountCents s \<le> errorCountCents (track_frame best s)"
    unfolding track_frame_counts
    using accept_pitch_counts_mono by (cases best) simp_all
  from step_semi step_hz all_semi all_hz all_cents mono show ?thesis by blast
qed

text \<open>
  The theorem of claim C8 on three scorings, of which only the first knows the actual
  frequency.
\<close>

theorem error_accumulators_running_mean_witness:
  "errorCount (score_all scorings3 tracker0) = 3 \<and>
   errorMAE (score_all scorings3 tracker0) = 7 / 6 \<and>
   errorCountHz (score_all scorings3 tracker0) = 1 \<and>
   errorMAEHz (score_all scorings3 tracker0) = \<bar>midiToFreq 66 - 440\<bar> \<and>
   errorCountCents (score_all scorings3 tracker0) = 1 \<and>
   errorCount (score_prediction 66 65 (Some 440) tracker0) = 1 \<and>
   errorCountHz (score_prediction 66 65 (Some 440) tracker0) = 1"
proof -
  have s: "semi_samples scorings3 = [1, 2, 1 / 2]"
    by (simp add: semi_samples_def scorings3_def)
  have h: "hz_samples scorings3 = [\<bar>midiToFreq 66 - 440\<bar>]"
    by (simp add: hz_samples_def scorings3_def)
  have c: "cents_samples scorings3 = [\<bar>1200 * log 2 (440 / midiToFreq 66)\<bar>]"
    by (simp add: cents_samples_def scorings3_def)
  from error_accumulators_running_mean
         [of 66 65 "Some 440" tracker0 scorings3 None]
  show ?thesis
    unfolding s h c by (simp add: tracker0_def)
qed


section \<open>The prediction queue\<close>

lemma predictNextMidi_Some_iff:
  "(\<exists>p. predictNextMidi h 1 = Some p) \<longleftrightarrow> 3 \<le> length h"
  by (auto simp: predictNextMidi_def Let_def)

lemma length_push_bounded:
  "length h \<le> cap \<Longrightarrow> length (push_bounded cap v h) \<le> cap"
  by (auto simp: push_bounded_def Let_def)

lemma length_push_bounded_ge:
  "0 < cap \<Longrightarrow> length h \<le> cap \<Longrightarrow> length h \<le> length (push_bounded cap v h)"
  by (auto simp: push_bounded_def Let_def)

lemma score_prediction_keeps:
  "midiHist (score_prediction p pm hz s) = midiHist s"
  "predQueue (score_prediction p pm hz s) = predQueue s"
  by (simp_all add: score_prediction_def Let_def split: option.splits)

lemma accept_pitch_rejected: "\<not> accepted r \<Longrightarrow> accept_pitch r s = s"
  by (auto simp: accepted_def accept_pitch_def split: option.splits)

lemma accept_pitch_accepted:
  assumes "accepted r"
  shows "\<exists>pm. midi r = Some pm \<and>
           midiHist (accept_pitch r s) = push_bounded 128 pm (midiHist s) \<and>
           predQueue (accept_pitch r s) = tl (predQueue s)"
proof -
  from assms obtain pm where pm: "midi r = Some pm" "pm \<noteq> 0" "clarity r > 0.3"
    by (auto simp: accepted_def split: option.splits)
  then have "midiHist (accept_pitch r s) = push_bounded 128 pm (midiHist s) \<and>
           predQueue (accept_pitch r s) = tl (predQueue s)"
    by (cases "predQueue s") (simp_all add: accept_pitch_def Let_def score_prediction_keeps)
  with pm show ?thesis by blast
qed

lemma track_frame_rejected:
  assumes "rejects best"
  shows "midiHist (track_frame best s) = midiHist s"
    and "predQueue (track_frame best s)
         = predQueue s @ (case predictNextMidi (midiHist s) 1 of None \<Rightarrow> [] | Some p \<Rightarrow> [p])"
proof -
  from assms have "(case best of None \<Rightarrow> s | Some b \<Rightarrow> accept_pitch b s) = s"
    by (auto simp: rejects_def accept_pitch_rejected split: option.splits)
  then show "midiHist (track_frame best s) = midiHist s"
    and "predQueue (track_frame best s)
         = predQueue s @ (case predictNextMidi (midiHist s) 1 of None \<Rightarrow> [] | Some p \<Rightarrow> [p])"
    by (simp_all add: track_frame_def Let_def split: option.splits)
qed

lemma track_frame_queue_bounds:
  "length (predQueue (track_frame best s)) \<le> length (predQueue s) + 1 \<and>
   length (predQueue s) \<le> length (predQueue (track_frame best s)) + 1"
proof -
  let ?s1 = "case best of None \<Rightarrow> s | Some b \<Rightarrow> accept_pitch b s"
  have q1: "predQueue ?s1 = predQueue s \<or> predQueue ?s1 = tl (predQueue s)"
  proof (cases best)
    case None
    then show ?thesis by simp
  next
    case (Some r)
    then show ?thesis
      using accept_pitch_rejected [of r s] accept_pitch_accepted [of r s]
      by (cases "accepted r") auto
  qed
  have q2: "predQueue (track_frame best s) = predQueue ?s1 \<or>
            (\<exists>p. predQueue (track_frame best s) = predQueue ?s1 @ [p])"
    by (simp add: track_frame_def Let_def split: option.splits)
  from q1 q2 show ?thesis by (cases "predQueue s") auto
qed

lemma track_frame_history_bound:
  "length (midiHist s) \<le> 128 \<Longrightarrow> length (midiHist (track_frame best s)) \<le> 128"
proof -
  assume b: "length (midiHist s) \<le> 128"
  let ?s1 = "case best of None \<Rightarrow> s | Some b \<Rightarrow> accept_pitch b s"
  have "length (midiHist ?s1) \<le> 128"
  proof (cases best)
    case None
    with b show ?thesis by simp
  next
    case (Some r)
    then show ?thesis
      using b accept_pitch_rejected [of r s] accept_pitch_accepted [of r s]
        length_push_bounded [of "midiHist s" 128]
      by (cases "accepted r") auto
  qed
  moreover have "midiHist (track_frame best s) = midiHist ?s1"
    by (simp add: track_frame_def Let_def split: option.splits)
  ultimately show ?thesis by simp
qed

lemma track_frames_rejected:
  assumes "3 \<le> length (midiHist s)" and "list_all rejects bests"
  shows "midiHist (track_frames bests s) = midiHist s \<and>
         length (predQueue (track_frames bests s)) = length (predQueue s) + length bests"
  using assms
proof (induction bests arbitrary: s)
  case Nil
  show ?case by (simp add: track_frames_def)
next
  case (Cons b bests)
  from Cons.prems have rb: "rejects b" and rest: "list_all rejects bests" by simp_all
  from Cons.prems(1) obtain p where p: "predictNextMidi (midiHist s) 1 = Some p"
    using predictNextMidi_Some_iff [of "midiHist s"] by blast
  have h: "midiHist (track_frame b s) = midiHist s"
    by (rule track_frame_rejected(1) [OF rb])
  have q: "length (predQueue (track_frame b s)) = length (predQueue s) + 1"
    by (simp add: track_frame_rejected(2) [OF rb] p)
  have "track_frames (b # bests) s = track_frames bests (track_frame b s)"
    by (simp add: track_frames_def)
  with Cons.IH [of "track_frame b s"] Cons.prems(1) rest h q show ?case by simp
qed

lemma rejects_None: "rejects None"
  by (simp add: rejects_def)

text \<open>
  Claim C10.  A frame changes the length of the prediction queue by at most one in either
  direction; a frame that accepts no pitch (no waveform, no midi note, or confidence at
  most 0.3) dequeues nothing and appends the prediction, which exists exactly when the
  history holds at least 3 notes.  So over any run of such frames on a history of at
  least 3 notes the queue grows by one per frame, and for every bound there is a run
  after which the queue is longer than the bound.  The note history stays within 128
  entries and the flux history within 1024.
\<close>

theorem prediction_queue_unbounded:
  "length (predQueue (track_frame best s)) \<le> length (predQueue s) + 1 \<and>
   length (predQueue s) \<le> length (predQueue (track_frame best s)) + 1 \<and>
   (rejects best \<longrightarrow>
      predQueue (track_frame best s)
        = predQueue s @ (case predictNextMidi (midiHist s) 1 of None \<Rightarrow> [] | Some p \<Rightarrow> [p])) \<and>
   ((\<exists>p. predictNextMidi (midiHist s) 1 = Some p) \<longleftrightarrow> 3 \<le> length (midiHist s)) \<and>
   (3 \<le> length (midiHist s) \<and> list_all rejects bests \<longrightarrow>
      length (predQueue (track_frames bests s)) = length (predQueue s) + length bests) \<and>
   (3 \<le> length (midiHist s) \<longrightarrow>
      (\<forall>bound. \<exists>frames. list_all rejects frames \<and>
         bound < length (predQueue (track_frames frames s)))) \<and>
   (length (midiHist s) \<le> 128 \<longrightarrow> length (midiHist (track_frame best s)) \<le> 128) \<and>
   (length fluxHist \<le> 1024 \<longrightarrow> length (push_bounded 1024 flux fluxHist) \<le> 1024)"
proof -
  have unb: "\<exists>frames. list_all rejects frames \<and>
         bound < length (predQueue (track_frames frames s))"
    if "3 \<le> length (midiHist s)" for bound
  proof -
    let ?frames = "replicate (Suc bound) (None :: PitchResult option)"
    have r: "list_all rejects ?frames"
      by (simp add: list_all_iff rejects_None)
    from track_frames_rejected [OF that r]
    have "bound < length (predQueue (track_frames ?frames s))" by simp
    with r show ?thesis by blast
  qed
  from track_frame_queue_bounds [of best s] track_frame_rejected(2) [of best s]
    predictNextMidi_Some_iff [of "midiHist s"] track_frames_rejected [of s bests]
    unb track_frame_history_bound [of s best] length_push_bounded [of fluxHist 1024 flux]
  show ?thesis by blast
qed

text \<open>
  The theorem of claim C10 from a history of three notes and an empty queue.
\<close>

theorem prediction_queue_unbounded_witness:
  "length (predQueue (track_frames [None, Some no_pitch, None] tracker3)) = 3 \<and>
   predQueue (track_frame None tracker3) = [66] \<and>
   length (midiHist (track_frame None tracker3)) \<le> 128 \<and>
   (\<exists>frames. list_all rejects frames \<and>
       1000 < length (predQueue (track_frames frames tracker3)))"
proof -
  have h: "midiHist tracker3 = [60, 62, 64]" and q: "predQueue tracker3 = []"
    by (simp_all add: tracker3_def tracker0_def)
  have l: "3 \<le> length (midiHist tracker3)" "length (midiHist tracker3) \<le> 128"
    by (simp_all add: h)
  have r: "list_all rejects [None, Some no_pitch, None]"
    by (simp add: rejects_def accepted_def no_pitch_def)
  have p: "predictNextMidi (midiHist tracker3) 1 = Some 66"
    by (simp add: h predictNextMidi_def slice_last_def push_intervals.simps [of "[60, 62, 64]"]
        read_at_def or_zero_def)
  from prediction_queue_unbounded [of None tracker3 "[None, Some no_pitch, None]" "[]" 0] l r
  have "length (predQueue (track_frames [None, Some no_pitch, None] tracker3)) = 3 \<and>
   predQueue (track_frame None tracker3) = [66] \<and>
   length (midiHist (track_frame None tracker3)) \<le> 128 \<and>
   (\<forall>bound. \<exists>frames. list_all rejects frames \<and>
       bound < length (predQueue (track_frames frames tracker3)))"
    by (auto simp add: rejects_None p q numeral_3_eq_3)
  then show ?thesis by blast
qed


section \<open>Bass energy\<close>

lemma bass_loop_sum:
  "0 \<le> i \<Longrightarrow> bass_loop mag i maxBin e
     = e + sum_list (map (\<lambda>j. max 0 (mag ! j + 140)) [nat i ..< nat (maxBin + 1)])"
proof (induction mag i maxBin e rule: bass_loop.induct)
  case (1 mag i maxBin e)
  show ?case
  proof (cases "i \<le> maxBin")
    case False
    then show ?thesis by (simp add: bass_loop.simps [of mag i])
  next
    case True
    from True "1.prems" have lt: "nat i < nat (maxBin + 1)" and sc: "nat (i + 1) = Suc (nat i)"
      by linarith+
    have u: "[nat i ..< nat (maxBin + 1)] = nat i # [nat (i + 1) ..< nat (maxBin + 1)]"
      unfolding sc using lt by (rule upt_conv_Cons)
    from "1.prems" have "0 \<le> i + 1" by simp
    from "1.IH" [OF True this]
    have ih: "bass_loop mag (i + 1) maxBin (e + max 0 (mag ! nat i + 140))
      = e + max 0 (mag ! nat i + 140)
        + sum_list (map (\<lambda>j. max 0 (mag ! j + 140)) [nat (i + 1) ..< nat (maxBin + 1)])" .
    have "bass_loop mag i maxBin e = bass_loop mag (i + 1) maxBin (e + max 0 (mag ! nat i + 140))"
      using True by (subst bass_loop.simps) simp
    also note ih
    finally show ?thesis unfolding u by simp
  qed
qed

lemma bass_max_bin_16k: "bass_max_bin 512 16000 = Some 9"
  by (simp add: bass_max_bin_def)

lemma upt_10: "[0 ..< 10] = [0, 1, 2, 3, 4, 5, 6, 7, 8, 9 :: nat]"
  by (simp add: upt_rec)

lemma bass_energy_from_bin_0:
  assumes "mag \<noteq> []" and "0 < sr"
  shows "bass_energy mag sr =
           Some (sum_list (map (\<lambda>j. max 0 (mag ! j + 140))
                   [0 ..< nat (min (int (length mag) - 1)
                                 \<lfloor>150 / (sr / 2 / real (length mag))\<rfloor> + 1)])
                 / real_of_int (min (int (length mag) - 1)
                                 \<lfloor>150 / (sr / 2 / real (length mag))\<rfloor> + 1))"
proof -
  from assms have "0 \<le> 150 / (sr / 2 / real (length mag))" by simp
  then have "0 \<le> \<lfloor>150 / (sr / 2 / real (length mag))\<rfloor>" by simp
  moreover from assms have "0 \<le> int (length mag) - 1" by (cases mag) simp_all
  ultimately have "0 \<le> min (int (length mag) - 1) \<lfloor>150 / (sr / 2 / real (length mag))\<rfloor>"
    by simp
  then have "min (int (length mag) - 1) \<lfloor>150 / (sr / 2 / real (length mag))\<rfloor> + 1 \<noteq> 0"
    by linarith
  with assms show ?thesis
    by (simp add: bass_energy_def bass_max_bin_def Let_def bass_loop_sum)
qed

text \<open>
  Claim C5 at a failing input.  At 16 kHz with 512 bins a bin is 15.625 Hz wide, so bin 0
  lies wholly below 20 Hz.  The two spectra \<open>mag_dc\<close> and \<open>mag_floor\<close> agree on every
  bin but bin 0, hence on every bin of the band 20--150 Hz, where both are silent; yet
  the bass energy of the first is 1 and of the second 0: the loop starts at bin 0, not at
  the first bin of the band.
\<close>

theorem bass_energy_counts_bins_below_20Hz:
  "bass_energy mag_dc 16000 = Some 1 \<and> bass_energy mag_floor 16000 = Some 0 \<and>
   tl mag_dc = tl mag_floor \<and> (16000 / 2 / 512 :: real) < 20"
proof -
  have "bass_energy mag_dc 16000 = Some 1"
    by (simp add: bass_energy_def mag_dc_def bass_max_bin_16k bass_loop_sum upt_10)
  moreover have "bass_energy mag_floor 16000 = Some 0"
    by (simp add: bass_energy_def mag_floor_def bass_max_bin_16k bass_loop_sum upt_10)
  moreover have "tl mag_dc = tl mag_floor"
    by (simp add: mag_dc_def mag_floor_def)
  ultimately show ?thesis by simp
qed


section \<open>Tempo estimation\<close>












section \<open>Key estimation\<close>

lemma upt_12: "[0 ..< 12] = [0, 1, 2, 3, 4, 5, 6, 7, 8, 9, 10, 11 :: nat]"
  by (simp add: upt_rec)

lemma score_loop_spec:
  assumes "score_loop bins profile shift (k0, v0) = (k, v)" and "shift \<le> 12"
  shows "((k, v) = (k0, v0) \<or>
          (shift \<le> k \<and> k < 12 \<and> v = Some (rotation_score bins profile k))) \<and>
         (\<forall>s. shift \<le> s \<and> s < 12 \<longrightarrow> (\<exists>w. v = Some w \<and> rotation_score bins profile s \<le> w)) \<and>
         (\<forall>w0. v0 = Some w0 \<longrightarrow> (\<exists>w. v = Some w \<and> w0 \<le> w))"
  using assms
proof (induction bins profile shift "(k0, v0)" arbitrary: k0 v0 rule: score_loop.induct)
  case (1 bins profile shift bestK bestV)
  let ?R = "rotation_score bins profile"
  show ?case
  proof (cases "shift < 12")
    case False
    with "1.prems"(1) have "(k, v) = (bestK, bestV)"
      by (simp add: score_loop.simps [of bins profile shift])
    with False show ?thesis by auto
  next
    case True
    let ?next = "if gt_ninf (?R shift) bestV then (shift, Some (?R shift)) else (bestK, bestV)"
    obtain nk nv where nx: "?next = (nk, nv)" by (cases ?next)
    have body: "(let s = ?R shift
           in if gt_ninf s bestV then (shift, Some s) else (bestK, bestV)) = (nk, nv)"
      unfolding Let_def by (rule nx)
    from True "1.prems"(1) body
    have run: "score_loop bins profile (shift + 1) (nk, nv) = (k, v)"
      by (simp add: score_loop.simps [of bins profile shift])
    from True have le: "shift + 1 \<le> 12" by simp
    note ih = "1.hyps" [OF True body run le]
    from ih have i1: "(k, v) = (nk, nv) \<or> (shift + 1 \<le> k \<and> k < 12 \<and> v = Some (?R k))"
      and i2: "\<forall>s. shift + 1 \<le> s \<and> s < 12 \<longrightarrow> (\<exists>w. v = Some w \<and> ?R s \<le> w)"
      and i3: "\<forall>w0. nv = Some w0 \<longrightarrow> (\<exists>w. v = Some w \<and> w0 \<le> w)"
      by blast+
    from nx have n1: "(nk, nv) = (bestK, bestV) \<or> (nk = shift \<and> nv = Some (?R shift))"
      by (auto split: if_splits)
    from nx have n2: "\<exists>w1. nv = Some w1 \<and> ?R shift \<le> w1"
      by (cases "gt_ninf (?R shift) bestV") (auto simp: gt_ninf_def split: option.splits)
    from nx have n3: "\<forall>w0. bestV = Some w0 \<longrightarrow> (\<exists>w1. nv = Some w1 \<and> w0 \<le> w1)"
      by (cases "gt_ninf (?R shift) bestV") (auto simp: gt_ninf_def)
    have p1: "(k, v) = (bestK, bestV) \<or> (shift \<le> k \<and> k < 12 \<and> v = Some (?R k))"
      using i1 n1 True by auto
    have p2: "\<forall>s. shift \<le> s \<and> s < 12 \<longrightarrow> (\<exists>w. v = Some w \<and> ?R s \<le> w)"
    proof (intro allI impI)
      fix s assume s: "shift \<le> s \<and> s < 12"
      show "\<exists>w. v = Some w \<and> ?R s \<le> w"
      proof (cases "s = shift")
        case False
        with s i2 show ?thesis by simp
      next
        case True
        from n2 obtain w1 where "nv = Some w1" "?R shift \<le> w1" by blast
        with i3 True show ?thesis by fastforce
      qed
    qed
    have p3: "\<forall>w0. bestV = Some w0 \<longrightarrow> (\<exists>w. v = Some w \<and> w0 \<le> w)"
    proof (intro allI impI)
      fix w0 assume "bestV = Some w0"
      with n3 obtain w1 where "nv = Some w1" "w0 \<le> w1" by blast
      with i3 show "\<exists>w. v = Some w \<and> w0 \<le> w" by fastforce
    qed
    from p1 p2 p3 show ?thesis by blast
  qed
qed

lemma score_spec:
  "\<exists>k w. score bins profile = (k, Some w) \<and> k < 12 \<and> w = rotation_score bins profile k \<and>
         (\<forall>s. s < 12 \<longrightarrow> rotation_score bins profile s \<le> w)"
proof -
  obtain k v where run: "score_loop bins profile 0 (0, None) = (k, v)"
    by (cases "score_loop bins profile 0 (0, None)")
  from score_loop_spec [OF run]
  have s1: "(k, v) = (0, None) \<or> (k < 12 \<and> v = Some (rotation_score bins profile k))"
    and s2: "\<forall>s. s < 12 \<longrightarrow> (\<exists>w. v = Some w \<and> rotation_score bins profile s \<le> w)"
    by auto
  from s2 obtain w where w: "v = Some w" by fastforce
  with s1 have "k < 12 \<and> w = rotation_score bins profile k" by auto
  with s2 w run show ?thesis by (auto simp: score_def)
qed

lemma score_major_on_major: "score KS_MAJOR KS_MAJOR = (0, Some 164.6799)"
  by (simp add: score_def score_loop.simps rotation_score_def KS_MAJOR_def upt_12 gt_ninf_def)

lemma score_minor_on_major: "score KS_MAJOR KS_MINOR = (9, Some 166.3791)"
  by (simp add: score_def score_loop.simps rotation_score_def KS_MAJOR_def KS_MINOR_def
      upt_12 gt_ninf_def)

lemma key_of_major_profile: "key_of_chroma KS_MAJOR = ''A minor''"
  by (simp add: key_of_chroma_def score_major_on_major score_minor_on_major ge_ninf_def
      key_names_def)

lemma key_of_triad: "key_of_chroma c_major_triad = ''C major''"
proof -
  have "score c_major_triad KS_MAJOR = (0, Some 15.92)"
    by (simp add: score_def score_loop.simps rotation_score_def KS_MAJOR_def c_major_triad_def
      upt_12 gt_ninf_def)
  moreover have "score c_major_triad KS_MINOR = (4, Some 15.69)"
    by (simp add: score_def score_loop.simps rotation_score_def KS_MINOR_def c_major_triad_def
      upt_12 gt_ninf_def)
  ultimately show ?thesis
    by (simp add: key_of_chroma_def ge_ninf_def key_names_def)
qed

lemma key_of_silence: "key_of_chroma (replicate 12 0) = ''C major''"
proof -
  have z: "replicate 12 (0 :: real) = [0, 0, 0, 0, 0, 0, 0, 0, 0, 0, 0, 0]"
    by (simp add: numeral_eq_Suc)
  have "score (replicate 12 0) KS_MAJOR = (0, Some 0)"
    unfolding z
    by (simp add: score_def score_loop.simps rotation_score_def KS_MAJOR_def upt_12 gt_ninf_def)
  moreover have "score (replicate 12 0) KS_MINOR = (0, Some 0)"
    unfolding z
    by (simp add: score_def score_loop.simps rotation_score_def KS_MINOR_def upt_12 gt_ninf_def)
  ultimately show ?thesis
    by (simp add: key_of_chroma_def ge_ninf_def key_names_def)
qed

text \<open>
  Claim C9, as the code has it.  The key estimator scores the 12 rotations of the chroma
  histogram against the major and the minor Krumhansl profile by dot product; for each
  profile it keeps a rotation of maximal score, and it names the major one when its score
  is at least the minor one's (ties go to major), the minor one otherwise.  The dot
  products are not normalised, and the minor profile is the heavier one: on a histogram
  equal to the C-major profile the best major rotation is 0 (C), but the minor profile at
  rotation 9 scores higher and the answer is \<open>A minor\<close>.
\<close>

theorem key_of_chroma_spec:
  "(\<exists>kM wM km wm.
      score bins KS_MAJOR = (kM, Some wM) \<and> score bins KS_MINOR = (km, Some wm) \<and>
      kM < 12 \<and> km < 12 \<and>
      wM = rotation_score bins KS_MAJOR kM \<and> wm = rotation_score bins KS_MINOR km \<and>
      (\<forall>s. s < 12 \<longrightarrow> rotation_score bins KS_MAJOR s \<le> wM) \<and>
      (\<forall>s. s < 12 \<longrightarrow> rotation_score bins KS_MINOR s \<le> wm) \<and>
      key_of_chroma bins
        = (if wM \<ge> wm then key_names ! kM @ '' major'' else key_names ! km @ '' minor'')) \<and>
   estimateKeyFromFFT mag sampleRate
     = key_of_chroma (chroma_loop mag sampleRate 1 (replicate 12 0)) \<and>
   key_of_chroma KS_MAJOR = ''A minor''"
proof -
  from score_spec [of bins KS_MAJOR] obtain kM wM where
    M: "score bins KS_MAJOR = (kM, Some wM)" "kM < 12" "wM = rotation_score bins KS_MAJOR kM"
       "\<forall>s. s < 12 \<longrightarrow> rotation_score bins KS_MAJOR s \<le> wM"
    by blast
  from score_spec [of bins KS_MINOR] obtain km wm where
    m: "score bins KS_MINOR = (km, Some wm)" "km < 12" "wm = rotation_score bins KS_MINOR km"
       "\<forall>s. s < 12 \<longrightarrow> rotation_score bins KS_MINOR s \<le> wm"
    by blast
  have "key_of_chroma bins
        = (if wM \<ge> wm then key_names ! kM @ '' major'' else key_names ! km @ '' minor'')"
    by (simp add: key_of_chroma_def M(1) m(1) ge_ninf_def)
  with M m have "\<exists>kM wM km wm.
      score bins KS_MAJOR = (kM, Some wM) \<and> score bins KS_MINOR = (km, Some wm) \<and>
      kM < 12 \<and> km < 12 \<and>
      wM = rotation_score bins KS_MAJOR kM \<and> wm = rotation_score bins KS_MINOR km \<and>
      (\<forall>s. s < 12 \<longrightarrow> rotation_score bins KS_MAJOR s \<le> wM) \<and>
      (\<forall>s. s < 12 \<longrightarrow> rotation_score bins KS_MINOR s \<le> wm) \<and>
      key_of_chroma bins
        = (if wM \<ge> wm then key_names ! kM @ '' major'' else key_names ! km @ '' minor'')"
    by blast
  then show ?thesis
    using key_of_major_profile by (simp add: estimateKeyFromFFT_def)
qed

subsection \<open>A spectrum whose histogram is the C-major profile\<close>

lemma js_round_midi:
  assumes "0 < r" and "70 \<le> n"
    and "2 ^ nat (2 * n - 139) \<le> r ^ 24" and "r ^ 24 < 2 ^ nat (2 * n - 137)"
  shows "js_round (69 + 12 * log 2 r) = n"
proof -
  have l24: "log 2 (r ^ 24) = 24 * log 2 r"
    using assms(1) by (simp add: log_nat_power)
  have p: "0 < r ^ 24" using assms(1) by simp
  have lo: "real (nat (2 * n - 139)) \<le> log 2 (r ^ 24)"
  proof -
    have "log 2 (2 ^ nat (2 * n - 139)) \<le> log 2 (r ^ 24)"
      using assms(3) p by (subst log_le_cancel_iff) simp_all
    then show ?thesis by (simp add: log_nat_power)
  qed
  have hi: "log 2 (r ^ 24) < real (nat (2 * n - 137))"
  proof -
    have "log 2 (r ^ 24) < log 2 (2 ^ nat (2 * n - 137))"
      using assms(4) p by (subst log_less_cancel_iff) simp_all
    then show ?thesis by (simp add: log_nat_power)
  qed
  from assms(2) have a: "real (nat (2 * n - 139)) = 2 * real_of_int n - 139"
    and b: "real (nat (2 * n - 137)) = 2 * real_of_int n - 137"
    by simp_all
  from lo hi have "real_of_int n \<le> 69 + 12 * log 2 r + 1 / 2"
    and "69 + 12 * log 2 r + 1 / 2 < real_of_int n + 1"
    unfolding l24 a b by linarith+
  then show ?thesis unfolding js_round_def by (rule floor_unique)
qed

lemma chroma_silent_step:
  assumes "k < length mag" and "mag ! k + 140 \<le> 0"
  shows "chroma_loop mag sr k bins = chroma_loop mag sr (Suc k) bins"
proof -
  from assms(2) have "max 0 (mag ! k + 140) = 0" by simp
  with assms(1) show ?thesis
    by (subst chroma_loop.simps) (simp add: Let_def)
qed

lemma chroma_skip:
  assumes "k \<le> k2" and "k2 \<le> length mag"
    and "\<forall>j. k \<le> j \<and> j < k2 \<longrightarrow> mag ! j + 140 \<le> 0"
  shows "chroma_loop mag sr k bins = chroma_loop mag sr k2 bins"
  using assms
proof (induction "k2 - k" arbitrary: k)
  case 0
  then show ?case by simp
next
  case (Suc d)
  then have lt: "k < k2" by simp
  with Suc.prems have "k < length mag" "mag ! k + 140 \<le> 0" by simp_all
  then have "chroma_loop mag sr k bins = chroma_loop mag sr (Suc k) bins"
    by (rule chroma_silent_step)
  also have "\<dots> = chroma_loop mag sr k2 bins"
    using Suc.hyps(2) Suc.prems lt by (intro Suc.hyps(1)) simp_all
  finally show ?case .
qed

lemma chroma_end: "chroma_loop mag sr (length mag) bins = bins"
  by (subst chroma_loop.simps) simp

lemma length_mag_cmaj [simp]: "length mag_cmaj = 512"
  by (simp add: mag_cmaj_def)

lemma nth_mag_cmaj: "k < 512 \<Longrightarrow> mag_cmaj ! k = cmaj_bin k"
  by (simp add: mag_cmaj_def)

lemma cmaj_step:
  assumes "2 \<le> k" and "k \<le> 106"
    and "js_round (69 + 12 * log 2 (75 * real k / 704)) = n"
  shows "chroma_loop mag_cmaj 48000 k bins
         = chroma_loop mag_cmaj 48000 (Suc k)
             (bins[nat (js_rem (js_rem n 12 + 12) 12)
                     := bins ! nat (js_rem (js_rem n 12 + 12) 12) + max 0 (cmaj_bin k + 140)])"
proof -
  from assms(1,2) have k: "k < length mag_cmaj" by simp
  have f: "real k * (48000 / 2) / real (length mag_cmaj) = 46.875 * real k" by simp
  from assms(1,2) have r: "\<not> (46.875 * real k < 50 \<or> 46.875 * real k > 5000)" by simp
  have q: "46.875 * real k / 440 = 75 * real k / 704" by simp
  from assms(1,2) have m: "mag_cmaj ! k = cmaj_bin k" by (intro nth_mag_cmaj) simp
  show ?thesis
    apply (subst chroma_loop.simps)
    apply (simp only: k if_True Let_def f r if_False q assms(3) m)
    apply simp
    done
qed

lemma cmaj_step_to:
  assumes "2 \<le> k" and "k \<le> 106"
    and "js_round (69 + 12 * log 2 (75 * real k / 704)) = n"
    and "nat (js_rem (js_rem n 12 + 12) 12) = c"
    and "bins[c := bins ! c + max 0 (cmaj_bin k + 140)] = bins'"
    and "k' = Suc k"
  shows "chroma_loop mag_cmaj 48000 k bins = chroma_loop mag_cmaj 48000 k' bins'"
  using cmaj_step [OF assms(1-3), of bins] assms(4-6) by simp

lemma cmaj_silent:
  "k \<notin> {14, 15, 20, 21, 25, 53, 63, 67, 71, 75, 89, 95} \<Longrightarrow> cmaj_bin k = - 140"
  by (simp add: cmaj_bin_def)

lemma cmaj_skip:
  assumes "k \<le> k2" and "k2 \<le> 512"
    and "\<forall>j. k \<le> j \<and> j < k2 \<longrightarrow> j \<notin> {14, 15, 20, 21, 25, 53, 63, 67, 71, 75, 89, 95}"
  shows "chroma_loop mag_cmaj 48000 k bins = chroma_loop mag_cmaj 48000 k2 bins"
proof (rule chroma_skip)
  show "k \<le> k2" by (rule assms(1))
  show "k2 \<le> length mag_cmaj" using assms(2) by simp
  show "\<forall>j. k \<le> j \<and> j < k2 \<longrightarrow> mag_cmaj ! j + 140 \<le> 0"
  proof (intro allI impI)
    fix j assume j: "k \<le> j \<and> j < k2"
    with assms(2) have "j < 512" by simp
    moreover from j assms(3) have "cmaj_bin j = - 140" by (intro cmaj_silent) blast
    ultimately show "mag_cmaj ! j + 140 \<le> 0" by (simp add: nth_mag_cmaj)
  qed
qed

lemma round_bin_14: "js_round (69 + 12 * log 2 (75 * real (14 :: nat) / 704)) = 76"
  by (rule js_round_midi) (simp_all add: power_divide)

lemma round_bin_15: "js_round (69 + 12 * log 2 (75 * real (15 :: nat) / 704)) = 77"
  by (rule js_round_midi) (simp_all add: power_divide)

lemma round_bin_20: "js_round (69 + 12 * log 2 (75 * real (20 :: nat) / 704)) = 82"
  by (rule js_round_midi) (simp_all add: power_divide)

lemma round_bin_21: "js_round (69 + 12 * log 2 (75 * real (21 :: nat) / 704)) = 83"
  by (rule js_round_midi) (simp_all add: power_divide)

lemma round_bin_25: "js_round (69 + 12 * log 2 (75 * real (25 :: nat) / 704)) = 86"
  by (rule js_round_midi) (simp_all add: power_divide)

lemma round_bin_53: "js_round (69 + 12 * log 2 (75 * real (53 :: nat) / 704)) = 99"
  by (rule js_round_midi) (simp_all add: power_divide)

lemma round_bin_63: "js_round (69 + 12 * log 2 (75 * real (63 :: nat) / 704)) = 102"
  by (rule js_round_midi) (simp_all add: power_divide)

lemma round_bin_67: "js_round (69 + 12 * log 2 (75 * real (67 :: nat) / 704)) = 103"
  by (rule js_round_midi) (simp_all add: power_divide)

lemma round_bin_71: "js_round (69 + 12 * log 2 (75 * real (71 :: nat) / 704)) = 104"
  by (rule js_round_midi) (simp_all add: power_divide)

lemma round_bin_75: "js_round (69 + 12 * log 2 (75 * real (75 :: nat) / 704)) = 105"
  by (rule js_round_midi) (simp_all add: power_divide)

lemma round_bin_89: "js_round (69 + 12 * log 2 (75 * real (89 :: nat) / 704)) = 108"
  by (rule js_round_midi) (simp_all add: power_divide)

lemma round_bin_95: "js_round (69 + 12 * log 2 (75 * real (95 :: nat) / 704)) = 109"
  by (rule js_round_midi) (simp_all add: power_divide)

lemma chroma_of_mag_cmaj: "chroma_loop mag_cmaj 48000 1 (replicate 12 0) = KS_MAJOR"
proof -
  have z: "replicate 12 (0 :: real) = [0, 0, 0, 0, 0, 0, 0, 0, 0, 0, 0, 0]"
    by (simp add: numeral_eq_Suc)
  have "chroma_loop mag_cmaj 48000 1 [0, 0, 0, 0, 0, 0, 0, 0, 0, 0, 0, 0] = chroma_loop mag_cmaj 48000 14 [0, 0, 0, 0, 0, 0, 0, 0, 0, 0, 0, 0]"
    by (rule cmaj_skip) auto
  also have "\<dots> = chroma_loop mag_cmaj 48000 15 [0, 0, 0, 0, 4.38, 0, 0, 0, 0, 0, 0, 0]"
    by (rule cmaj_step_to [OF _ _ round_bin_14, where c = 4]) (simp_all add: js_rem_def cmaj_bin_def eval_nat_numeral)
  also have "\<dots> = chroma_loop mag_cmaj 48000 16 [0, 0, 0, 0, 4.38, 4.09, 0, 0, 0, 0, 0, 0]"
    by (rule cmaj_step_to [OF _ _ round_bin_15, where c = 5]) (simp_all add: js_rem_def cmaj_bin_def eval_nat_numeral)
  also have "\<dots> = chroma_loop mag_cmaj 48000 20 [0, 0, 0, 0, 4.38, 4.09, 0, 0, 0, 0, 0, 0]"
    by (rule cmaj_skip) auto
  also have "\<dots> = chroma_loop mag_cmaj 48000 21 [0, 0, 0, 0, 4.38, 4.09, 0, 0, 0, 0, 2.29, 0]"
    by (rule cmaj_step_to [OF _ _ round_bin_20, where c = 10]) (simp_all add: js_rem_def cmaj_bin_def eval_nat_numeral)
  also have "\<dots> = chroma_loop mag_cmaj 48000 22 [0, 0, 0, 0, 4.38, 4.09, 0, 0, 0, 0, 2.29, 2.88]"
    by (rule cmaj_step_to [OF _ _ round_bin_21, where c = 11]) (simp_all add: js_rem_def cmaj_bin_def eval_nat_numeral)
  also have "\<dots> = chroma_loop mag_cmaj 48000 25 [0, 0, 0, 0, 4.38, 4.09, 0, 0, 0, 0, 2.29, 2.88]"
    by (rule cmaj_skip) auto
  also have "\<dots> = chroma_loop mag_cmaj 48000 26 [0, 0, 3.48, 0, 4.38, 4.09, 0, 0, 0, 0, 2.29, 2.88]"
    by (rule cmaj_step_to [OF _ _ round_bin_25, where c = 2]) (simp_all add: js_rem_def cmaj_bin_def eval_nat_numeral)
  also have "\<dots> = chroma_loop mag_cmaj 48000 53 [0, 0, 3.48, 0, 4.38, 4.09, 0, 0, 0, 0, 2.29, 2.88]"
    by (rule cmaj_skip) auto
  also have "\<dots> = chroma_loop mag_cmaj 48000 54 [0, 0, 3.48, 2.33, 4.38, 4.09, 0, 0, 0, 0, 2.29, 2.88]"
    by (rule cmaj_step_to [OF _ _ round_bin_53, where c = 3]) (simp_all add: js_rem_def cmaj_bin_def eval_nat_numeral)
  also have "\<dots> = chroma_loop mag_cmaj 48000 63 [0, 0, 3.48, 2.33, 4.38, 4.09, 0, 0, 0, 0, 2.29, 2.88]"
    by (rule cmaj_skip) auto
  also have "\<dots> = chroma_loop mag_cmaj 48000 64 [0, 0, 3.48, 2.33, 4.38, 4.09, 2.52, 0, 0, 0, 2.29, 2.88]"
    by (rule cmaj_step_to [OF _ _ round_bin_63, where c = 6]) (simp_all add: js_rem_def cmaj_bin_def eval_nat_numeral)
  also have "\<dots> = chroma_loop mag_cmaj 48000 67 [0, 0, 3.48, 2.33, 4.38, 4.09, 2.52, 0, 0, 0, 2.29, 2.88]"
    by (rule cmaj_skip) auto
  also have "\<dots> = chroma_loop mag_cmaj 48000 68 [0, 0, 3.48, 2.33, 4.38, 4.09, 2.52, 5.19, 0, 0, 2.29, 2.88]"
    by (rule cmaj_step_to [OF _ _ round_bin_67, where c = 7]) (simp_all add: js_rem_def cmaj_bin_def eval_nat_numeral)
  also have "\<dots> = chroma_loop mag_cmaj 48000 71 [0, 0, 3.48, 2.33, 4.38, 4.09, 2.52, 5.19, 0, 0, 2.29, 2.88]"
    by (rule cmaj_skip) auto
  also have "\<dots> = chroma_loop mag_cmaj 48000 72 [0, 0, 3.48, 2.33, 4.38, 4.09, 2.52, 5.19, 2.39, 0, 2.29, 2.88]"
    by (rule cmaj_step_to [OF _ _ round_bin_71, where c = 8]) (simp_all add: js_rem_def cmaj_bin_def eval_nat_numeral)
  also have "\<dots> = chroma_loop mag_cmaj 48000 75 [0, 0, 3.48, 2.33, 4.38, 4.09, 2.52, 5.19, 2.39, 0, 2.29, 2.88]"
    by (rule cmaj_skip) auto
  also have "\<dots> = chroma_loop mag_cmaj 48000 76 [0, 0, 3.48, 2.33, 4.38, 4.09, 2.52, 5.19, 2.39, 3.66, 2.29, 2.88]"
    by (rule cmaj_step_to [OF _ _ round_bin_75, where c = 9]) (simp_all add: js_rem_def cmaj_bin_def eval_nat_numeral)
  also have "\<dots> = chroma_loop mag_cmaj 48000 89 [0, 0, 3.48, 2.33, 4.38, 4.09, 2.52, 5.19, 2.39, 3.66, 2.29, 2.88]"
    by (rule cmaj_skip) auto
  also have "\<dots> = chroma_loop mag_cmaj 48000 90 [6.35, 0, 3.48, 2.33, 4.38, 4.09, 2.52, 5.19, 2.39, 3.66, 2.29, 2.88]"
    by (rule cmaj_step_to [OF _ _ round_bin_89, where c = 0]) (simp_all add: js_rem_def cmaj_bin_def eval_nat_numeral)
  also have "\<dots> = chroma_loop mag_cmaj 48000 95 [6.35, 0, 3.48, 2.33, 4.38, 4.09, 2.52, 5.19, 2.39, 3.66, 2.29, 2.88]"
    by (rule cmaj_skip) auto
  also have "\<dots> = chroma_loop mag_cmaj 48000 96 [6.35, 2.23, 3.48, 2.33, 4.38, 4.09, 2.52, 5.19, 2.39, 3.66, 2.29, 2.88]"
    by (rule cmaj_step_to [OF _ _ round_bin_95, where c = 1]) (simp_all add: js_rem_def cmaj_bin_def eval_nat_numeral)
  also have "\<dots> = chroma_loop mag_cmaj 48000 512 [6.35, 2.23, 3.48, 2.33, 4.38, 4.09, 2.52, 5.19, 2.39, 3.66, 2.29, 2.88]"
    by (rule cmaj_skip) auto
  also have "\<dots> = [6.35, 2.23, 3.48, 2.33, 4.38, 4.09, 2.52, 5.19, 2.39, 3.66, 2.29, 2.88]"
    using chroma_end [of mag_cmaj] by simp
  finally show ?thesis by (simp add: z KS_MAJOR_def)
qed

text \<open>
  Claim C9 as stated expects \<open>C major\<close> on the C-major profile.  The best major score is
  164.6799 (rotation 0), the best minor score is 166.3791 (rotation 9), and the estimator
  answers \<open>A minor\<close>.  The spectrum \<open>mag_cmaj\<close> (512 bins at 48 kHz, silent but for one
  bin per pitch class) has exactly that histogram, and \<^verbatim>\<open>estimateKeyFromFFT\<close> answers
  \<open>A minor\<close> on it.
\<close>

theorem key_of_major_profile_counterexample:
  "key_of_chroma KS_MAJOR = ''A minor'' \<and> key_of_chroma KS_MAJOR \<noteq> ''C major'' \<and>
   score KS_MAJOR KS_MAJOR = (0, Some 164.6799) \<and>
   score KS_MAJOR KS_MINOR = (9, Some 166.3791) \<and>
   chroma_loop mag_cmaj 48000 1 (replicate 12 0) = KS_MAJOR \<and>
   estimateKeyFromFFT mag_cmaj 48000 = ''A minor''"
proof -
  have "estimateKeyFromFFT mag_cmaj 48000 = ''A minor''"
    unfolding estimateKeyFromFFT_def chroma_of_mag_cmaj by (rule key_of_major_profile)
  then show ?thesis
    by (simp add: key_of_major_profile score_major_on_major score_minor_on_major
        chroma_of_mag_cmaj del: One_nat_def)
qed

text \<open>
  The theorem of claim C9 on the C-major profile, on the triad C--E--G (\<open>C major\<close>) and on
  the empty histogram, where every score is 0 and the tie goes to \<open>C major\<close>.
\<close>

theorem key_of_chroma_spec_witness:
  "key_of_chroma KS_MAJOR = ''A minor'' \<and>
   key_of_chroma c_major_triad = ''C major'' \<and>
   key_of_chroma (replicate 12 0) = ''C major'' \<and>
   (\<exists>kM wM. score c_major_triad KS_MAJOR = (kM, Some wM) \<and> kM < 12 \<and>
      rotation_score c_major_triad KS_MAJOR 7 \<le> wM)"
proof -
  have "(7 :: nat) < 12" by simp
  with key_of_chroma_spec [of c_major_triad "[]" 0] key_of_triad key_of_silence
  show ?thesis by blast
qed


section \<open>The flock\<close>

lemma hypot_nonneg [simp]: "0 \<le> hypot a b"
  by (simp add: hypot_def)


lemma hypot_zero_right [simp]: "hypot a 0 = \<bar>a\<bar>"
  by (simp add: hypot_def)
















section \<open>The swarm lifecycle\<close>

lemma update_swarm_fields [simp]:
  "alive (update_swarm e i s) = alive s"
  "targetPhase (update_swarm e i s) = targetPhase s"
  "life (update_swarm e i s) = clamp01 (lerp (life s) (if alive s then 1 else 0) 0.02)"
  by (simp_all add: update_swarm_def Let_def)

lemma nth_map_zip_upt:
  "i < length xs \<Longrightarrow> map (\<lambda>(j, s). f j s) (zip [0 ..< length xs] xs) ! i = f i (xs ! i)"
  by simp

lemma mark_dead_nth:
  assumes "i < length xs"
  shows "(alive (xs[k := (xs ! k)\<lparr>alive := False\<rparr>] ! i) \<longrightarrow> alive (xs ! i)) \<and>
         life (xs[k := (xs ! k)\<lparr>alive := False\<rparr>] ! i) = life (xs ! i) \<and>
         targetPhase (xs[k := (xs ! k)\<lparr>alive := False\<rparr>] ! i) = targetPhase (xs ! i)"
  using assms by (cases "k = i") simp_all

lemma swarm_frame_nth:
  assumes "i < length swarms"
  shows "length swarms \<le> length (swarm_frame e swarms) \<and>
         (alive (swarm_frame e swarms ! i) \<longrightarrow> alive (swarms ! i)) \<and>
         targetPhase (swarm_frame e swarms ! i) = targetPhase (swarms ! i) \<and>
         life (swarm_frame e swarms ! i)
           = clamp01 (lerp (life (swarms ! i))
                        (if alive (swarm_frame e swarms ! i) then 1 else 0) 0.02)"
proof -
  define s1 where "s1 = (if isClap e then
                  map (\<lambda>s. s\<lparr>hueBase := js_fmod (hueBase s + 80) 360\<rparr>)
                    (if length swarms < 6 then swarms @ [new_swarm (clap_spawn e)] else swarms)
                else swarms)"
  define s2 where "s2 = (if length s1 < 2 \<or> (length s1 < 5 \<and> rnd_spawn e < 0.006)
                then s1 @ [new_swarm (base_spawn e)] else s1)"
  define s3 where "s3 = (if length s2 > 2 \<and> rnd_despawn e < 0.003 then
                  (let idx = nat \<lfloor>rnd_idx e * real (length s2)\<rfloor>
                   in s2[idx := (s2 ! idx)\<lparr>alive := False\<rparr>])
                else s2)"
  have sf: "swarm_frame e swarms = map (\<lambda>(i, s). update_swarm e i s) (zip [0 ..< length s3] s3)"
    unfolding swarm_frame_def Let_def s1_def s2_def s3_def ..
  have p1: "length swarms \<le> length s1 \<and> alive (s1 ! i) = alive (swarms ! i) \<and>
            life (s1 ! i) = life (swarms ! i) \<and> targetPhase (s1 ! i) = targetPhase (swarms ! i)"
    using assms by (simp add: s1_def nth_append)
  then have i1: "i < length s1" using assms by simp
  have p2: "length s1 \<le> length s2 \<and> s2 ! i = s1 ! i"
    using i1 by (simp add: s2_def nth_append)
  then have i2: "i < length s2" using i1 by simp
  have p3: "length s3 = length s2 \<and> (alive (s3 ! i) \<longrightarrow> alive (s2 ! i)) \<and>
            life (s3 ! i) = life (s2 ! i) \<and> targetPhase (s3 ! i) = targetPhase (s2 ! i)"
    using mark_dead_nth [OF i2] by (simp add: s3_def Let_def)
  then have i3: "i < length s3" using i2 by simp
  have nth: "swarm_frame e swarms ! i = update_swarm e i (s3 ! i)"
    unfolding sf using i3 by simp
  have len: "length (swarm_frame e swarms) = length s3"
    unfolding sf by simp
  from p1 p2 p3 show ?thesis unfolding nth len by auto
qed

lemma fade_step:
  assumes "0 \<le> l" "l \<le> 1"
  shows "clamp01 (lerp l 0 0.02) = 0.98 * l"
  using assms by (simp add: clamp01_def lerp_def algebra_simps)

lemma swarm_frame_dead:
  assumes "i < length swarms" and "\<not> alive (swarms ! i)"
  shows "i < length (swarm_frame e swarms) \<and> \<not> alive (swarm_frame e swarms ! i) \<and>
         targetPhase (swarm_frame e swarms ! i) = targetPhase (swarms ! i) \<and>
         life (swarm_frame e swarms ! i) = clamp01 (lerp (life (swarms ! i)) 0 0.02)"
proof -
  from swarm_frame_nth [OF assms(1), of e] assms(2)
  have d: "\<not> alive (swarm_frame e swarms ! i)" by blast
  from swarm_frame_nth [OF assms(1), of e] d assms(1) show ?thesis by auto
qed

lemma swarm_frames_snoc:
  "swarm_frames (envs @ [e]) swarms = swarm_frame e (swarm_frames envs swarms)"
  by (simp add: swarm_frames_def)

lemma swarm_frames_dead:
  assumes "i < length swarms" and "\<not> alive (swarms ! i)"
    and "0 \<le> life (swarms ! i)" and "life (swarms ! i) \<le> 1"
  shows "length swarms \<le> length (swarm_frames envs swarms) \<and>
         \<not> alive (swarm_frames envs swarms ! i) \<and>
         targetPhase (swarm_frames envs swarms ! i) = targetPhase (swarms ! i) \<and>
         life (swarm_frames envs swarms ! i) = 0.98 ^ length envs * life (swarms ! i)"
proof (induction envs rule: rev_induct)
  case Nil
  from assms show ?case by (simp add: swarm_frames_def)
next
  case (snoc e envs)
  let ?mid = "swarm_frames envs swarms"
  from snoc assms(1) have i: "i < length ?mid" and d: "\<not> alive (?mid ! i)"
    and l: "life (?mid ! i) = 0.98 ^ length envs * life (swarms ! i)"
    and t: "targetPhase (?mid ! i) = targetPhase (swarms ! i)"
    and n: "length swarms \<le> length ?mid"
    by simp_all
  from l assms(3,4) have b: "0 \<le> life (?mid ! i)" "life (?mid ! i) \<le> 1"
    by (simp_all add: mult_le_one power_le_one)
  from swarm_frame_dead [OF i d, of e] swarm_frame_nth [OF i, of e] fade_step [OF b] l t n
  show ?case unfolding swarm_frames_snoc by simp
qed

lemma fade_below:
  fixes l0 eps :: real
  assumes "0 \<le> l0" "l0 \<le> 1" "0 < eps"
  shows "\<exists>n. \<forall>m\<ge>n. 0.98 ^ m * l0 < eps"
proof -
  from real_arch_pow_inv [OF assms(3), of "0.98"] obtain n where n: "(0.98 :: real) ^ n < eps"
    by auto
  have "0.98 ^ m * l0 < eps" if "n \<le> m" for m
  proof -
    have a: "(0.98 :: real) ^ m \<le> 0.98 ^ n" using that by (intro power_decreasing) simp_all
    have "(0.98 :: real) ^ m * l0 \<le> 0.98 ^ m * 1"
      using assms(2) by (intro mult_left_mono) simp_all
    also have "\<dots> = 0.98 ^ m" by simp
    also note a
    also note n
    finally show ?thesis .
  qed
  then show ?thesis by blast
qed

lemma swarm_session_frames:
  "swarm_session (map Frame envs) swarms = swarm_frames envs swarms"
  by (induction envs arbitrary: swarms) (simp_all add: swarm_session_def swarm_frames_def)

lemma swarm_session_rerun:
  "swarm_session (events @ [Rerun r spawn_of]) swarms = effect_start r spawn_of"
  by (simp add: swarm_session_def)

lemma effect_start_fresh:
  "length (effect_start r spawn_of) = nat \<lfloor>2 + r * 3\<rfloor> \<and>
   list_all (\<lambda>s. alive s \<and> life s = 0) (effect_start r spawn_of)"
  by (simp add: effect_start_def new_swarm_def list_all_iff)

text \<open>
  Claim C1, as the code has it.  Take a swarm of the active collection that is marked
  \<^verbatim>\<open>alive = false\<close>, with life in \<open>[0, 1]\<close>, and follow it through the frames of one run
  of the animation loop.  Every frame smooths its life towards 0,
  \<open>life' = clamp01 (lerp life 0 0.02)\<close>, so after \<open>n\<close> frames the life is \<open>0.98\<^sup>n\<close> times
  the initial one and falls below every positive epsilon.  The swarm is never marked
  alive again and no frame removes it: after any number of frames of the run it is still
  the element at its index of the collection, whatever its life, and the collection is no
  shorter than before.  \<^verbatim>\<open>drawSwarms\<close> has no step that purges a faded swarm.  A session
  that consists of frames only is such a run.  The one thing that drops swarms is a re-run
  of the effect: it replaces the whole collection, whatever the lives of its swarms, by
  \<open>\<lfloor>2 + 3 r\<rfloor>\<close> fresh swarms that are alive with life 0.
\<close>

theorem swarm_fades_and_stays:
  assumes "i < length swarms" and "\<not> alive (swarms ! i)"
    and "0 \<le> life (swarms ! i)" and "life (swarms ! i) \<le> 1"
  shows "i < length (swarm_frames envs swarms) \<and>
         length swarms \<le> length (swarm_frames envs swarms) \<and>
         \<not> alive (swarm_frames envs swarms ! i) \<and>
         targetPhase (swarm_frames envs swarms ! i) = targetPhase (swarms ! i) \<and>
         life (swarm_frames envs swarms ! i) = 0.98 ^ length envs * life (swarms ! i) \<and>
         life (swarm_frame e swarms ! i) = clamp01 (lerp (life (swarms ! i)) 0 0.02) \<and>
         (\<forall>eps>0. \<exists>n. \<forall>envs'. n \<le> length envs' \<longrightarrow>
            life (swarm_frames envs' swarms ! i) < eps) \<and>
         swarm_session (map Frame envs) swarms = swarm_frames envs swarms \<and>
         swarm_session (events @ [Rerun r spawn_of]) swarms = effect_start r spawn_of \<and>
         length (effect_start r spawn_of) = nat \<lfloor>2 + r * 3\<rfloor> \<and>
         list_all (\<lambda>s. alive s \<and> life s = 0) (effect_start r spawn_of)"
proof -
  note frames = swarm_frames_dead [OF assms]
  have lim: "\<exists>n. \<forall>envs'. n \<le> length envs' \<longrightarrow> life (swarm_frames envs' swarms ! i) < eps"
    if "0 < eps" for eps
  proof -
    from fade_below [OF assms(3,4) that] obtain n where
      n: "\<forall>m\<ge>n. 0.98 ^ m * life (swarms ! i) < eps" by blast
    have "life (swarm_frames envs' swarms ! i) < eps" if "n \<le> length envs'" for envs'
      using frames [of envs'] n that by simp
    then show ?thesis by blast
  qed
  have run: "i < length (swarm_frames envs swarms) \<and>
         length swarms \<le> length (swarm_frames envs swarms) \<and>
         \<not> alive (swarm_frames envs swarms ! i) \<and>
         targetPhase (swarm_frames envs swarms ! i) = targetPhase (swarms ! i) \<and>
         life (swarm_frames envs swarms ! i) = 0.98 ^ length envs * life (swarms ! i) \<and>
         life (swarm_frame e swarms ! i) = clamp01 (lerp (life (swarms ! i)) 0 0.02) \<and>
         (\<forall>eps>0. \<exists>n. \<forall>envs'. n \<le> length envs' \<longrightarrow>
            life (swarm_frames envs' swarms ! i) < eps)"
    using frames [of envs] assms(1) swarm_frame_dead [OF assms(1,2), of e] lim by auto
  from run swarm_session_frames [of envs swarms]
    swarm_session_rerun [of events r spawn_of swarms] effect_start_fresh [of r spawn_of]
  show ?thesis by blast
qed

lemma swarms3_frame_length: "length (swarm_frame env0 swarms3) = 3"
  by (simp add: swarm_frame_def env0_def swarms3_def)

text \<open>
  Claim C1 as stated has a swarm purged once its life has decayed to about 0.  In
  \<open>swarms3\<close> the third swarm is dead with life exactly 0; after one frame without clap,
  spawn or despawn the collection still has its three swarms, the third one dead with life
  0, and it is still there after 1000 such frames of the same run of the animation loop.
\<close>

theorem dead_swarm_not_purged_counterexample:
  "\<not> alive (swarms3 ! 2) \<and> life (swarms3 ! 2) = 0 \<and>
   length (swarm_frame env0 swarms3) = 3 \<and>
   \<not> alive (swarm_frame env0 swarms3 ! 2) \<and>
   life (swarm_frame env0 swarms3 ! 2) = 0 \<and>
   targetPhase (swarm_frame env0 swarms3 ! 2) = 2 \<and>
   3 \<le> length (swarm_frames (replicate 1000 env0) swarms3) \<and>
   \<not> alive (swarm_frames (replicate 1000 env0) swarms3 ! 2) \<and>
   life (swarm_frames (replicate 1000 env0) swarms3 ! 2) = 0 \<and>
   targetPhase (swarm_frames (replicate 1000 env0) swarms3 ! 2) = 2"
proof -
  have s: "2 < length swarms3" "\<not> alive (swarms3 ! 2)" "life (swarms3 ! 2) = 0"
    "targetPhase (swarms3 ! 2) = 2" "length swarms3 = 3"
    by (simp_all add: swarms3_def swarm_dead_def)
  from s have b: "0 \<le> life (swarms3 ! 2)" "life (swarms3 ! 2) \<le> 1" by simp_all
  from swarm_frame_dead [OF s(1,2), of env0] s
  have one: "\<not> alive (swarm_frame env0 swarms3 ! 2) \<and>
             life (swarm_frame env0 swarms3 ! 2) = 0 \<and>
             targetPhase (swarm_frame env0 swarms3 ! 2) = 2"
    by (simp add: clamp01_def lerp_def)
  from swarm_frames_dead [OF s(1,2) b, of "replicate 1000 env0"] s
  have many: "3 \<le> length (swarm_frames (replicate 1000 env0) swarms3) \<and>
   \<not> alive (swarm_frames (replicate 1000 env0) swarms3 ! 2) \<and>
   life (swarm_frames (replicate 1000 env0) swarms3 ! 2) = 0 \<and>
   targetPhase (swarm_frames (replicate 1000 env0) swarms3 ! 2) = 2"
    by simp
  from s one many swarms3_frame_length show ?thesis by simp
qed

text \<open>
  The theorem of claim C1 on a collection whose third swarm is dead with life 1: after one
  frame its life is 0.98, after two 0.9604; a re-run of the effect with draw 0 after a
  frame leaves two fresh swarms.
\<close>

theorem swarm_fades_and_stays_witness:
  "2 < length dying3 \<and> \<not> alive (dying3 ! 2) \<and> life (dying3 ! 2) = 1 \<and>
   2 < length (swarm_frames [env0, env0] dying3) \<and>
   \<not> alive (swarm_frames [env0, env0] dying3 ! 2) \<and>
   life (swarm_frames [env0, env0] dying3 ! 2) = 0.9604 \<and>
   life (swarm_frame env0 dying3 ! 2) = 0.98 \<and>
   life (swarm_session [Frame env0, Frame env0] dying3 ! 2) = 0.9604 \<and>
   length (swarm_session [Frame env0, Rerun 0 (\<lambda>i. base_spawn env0)] dying3) = 2 \<and>
   list_all (\<lambda>s. alive s \<and> life s = 0)
     (swarm_session [Frame env0, Rerun 0 (\<lambda>i. base_spawn env0)] dying3)"
proof -
  have s: "2 < length dying3" "\<not> alive (dying3 ! 2)" "life (dying3 ! 2) = 1"
    by (simp_all add: dying3_def swarm_dying_def)
  from s have b: "0 \<le> life (dying3 ! 2)" "life (dying3 ! 2) \<le> 1" by simp_all
  note t = swarm_fades_and_stays [OF s(1,2) b, of "[env0, env0]" env0 "[Frame env0]" 0
             "\<lambda>i. base_spawn env0"]
  from t have f: "swarm_session [Frame env0, Frame env0] dying3
                  = swarm_frames [env0, env0] dying3" by simp
  from t have r: "swarm_session [Frame env0, Rerun 0 (\<lambda>i. base_spawn env0)] dying3
                  = effect_start 0 (\<lambda>i. base_spawn env0)" by simp
  from t have e: "length (effect_start 0 (\<lambda>i. base_spawn env0)) = 2"
    "list_all (\<lambda>s. alive s \<and> life s = 0) (effect_start 0 (\<lambda>i. base_spawn env0))"
    by simp_all
  from t s show ?thesis
    unfolding f r using e by (simp add: clamp01_def lerp_def power2_eq_square)
qed

end
